theory Spec2Isabelle
  imports Complex_Main "HOL-Library.Product_Lexorder"
begin

section \<open>Draft replay and synergy ranking of the match page (src/pages/Match.tsx)\<close>

text \<open>
  The match page derives every view from plain data. Numbers of the source are modelled
  as \<open>int\<close> where they are identifiers, counts or positions, and as \<open>real\<close> where they
  are rates. A JavaScript \<open>Map\<close> is an association list in insertion order
  (\<open>forEach\<close> walks it front to back, \<open>get\<close> is \<open>map_of\<close>), a \<open>Set\<close> of numbers is a
  HOL set, and \<open>NaN\<close> coming out of \<open>parseInt\<close> is \<open>None\<close>.
\<close>

subsection \<open>Snake draft order: getPickingInfo\<close>

datatype team = Radiant | Dire

record PickingInfo =
  team :: team
  playerPos :: int

text \<open>The remainder operator \<open>%\<close> of JavaScript truncates towards zero.\<close>

definition jsRem :: "int \<Rightarrow> int \<Rightarrow> int" where
  "jsRem a b = sgn a * (\<bar>a\<bar> mod \<bar>b\<bar>)"

definition getPickingInfo :: "int \<Rightarrow> PickingInfo" where
  "getPickingInfo pickNum =
     (if pickNum = 0 then \<lparr>team = Radiant, playerPos = 0\<rparr>
      else
        let pickIndex = pickNum - 1;
            phase = pickIndex div 10;
            posInPhase = jsRem pickIndex 10
        in if jsRem phase 2 = 0
           then \<lparr>team = (if jsRem posInPhase 2 = 0 then Radiant else Dire),
                 playerPos = posInPhase div 2\<rparr>
           else \<lparr>team = (if jsRem posInPhase 2 = 0 then Dire else Radiant),
                 playerPos = 4 - posInPhase div 2\<rparr>)"

text \<open>
  The phase rule in the words of the specification: picks come in phases of ten; an
  even-indexed phase runs forward, Radiant first, an odd-indexed phase runs through the
  same seats backwards, Dire first; pick number 0 is the sentinel (Radiant, seat 0).
\<close>

definition forwardPhase :: "(team \<times> int) list" where
  "forwardPhase =
     [(Radiant, 0), (Dire, 0), (Radiant, 1), (Dire, 1), (Radiant, 2),
      (Dire, 2), (Radiant, 3), (Dire, 3), (Radiant, 4), (Dire, 4)]"

definition snakeRule :: "nat \<Rightarrow> team \<times> int" where
  "snakeRule n =
     (if n = 0 then (Radiant, 0)
      else if even ((n - 1) div 10) then forwardPhase ! ((n - 1) mod 10)
      else rev forwardPhase ! ((n - 1) mod 10))"

subsection \<open>The step index and its controls\<close>

text \<open>
  The step index \<open>currentPick\<close> starts at 0. Four buttons and one slider change it:
  Start sets 0, Prev sets \<open>Math.max(0, currentPick - 1)\<close>, Next sets
  \<open>Math.min(picks.length, currentPick + 1)\<close>, End sets \<open>picks.length\<close>, and the slider's
  change handler stores \<open>Number(e.target.value)\<close>. The slider is a range input
  declared with \<open>min={0}\<close> and \<open>max={picks.length}\<close>: the element holds a requested
  position within these two bounds (the minimum when the maximum is below it) before the
  handler reads the value.
\<close>

definition rangeInputValue :: "int \<Rightarrow> int \<Rightarrow> int \<Rightarrow> int" where
  "rangeInputValue mn mx requested =
     (if mx < mn then mn
      else if requested < mn then mn
      else if mx < requested then mx
      else requested)"

datatype control = Start | Prev | Next | End | Slider int

fun setCurrentPick :: "nat \<Rightarrow> int \<Rightarrow> control \<Rightarrow> int" where
  "setCurrentPick picksLength currentPick Start = 0"
| "setCurrentPick picksLength currentPick Prev = max 0 (currentPick - 1)"
| "setCurrentPick picksLength currentPick Next = min (int picksLength) (currentPick + 1)"
| "setCurrentPick picksLength currentPick End = int picksLength"
| "setCurrentPick picksLength currentPick (Slider requested) =
     rangeInputValue 0 (int picksLength) requested"

text \<open>The clamp of the specification.\<close>

definition clamp :: "int \<Rightarrow> int \<Rightarrow> int \<Rightarrow> int" where
  "clamp k lo hi = max lo (min hi k)"

subsection \<open>Static ability table and slot types\<close>

text \<open>
  The static table behind \<open>getAbilityById\<close> is generated data; the functions below
  take the lookup as a parameter. A field typed \<open>boolean | null\<close> is a \<open>bool option\<close>.
\<close>

record Ability =
  englishName :: string
  shortName :: string
  isUltimate :: "bool option"
  tooltip :: "string option"
  valveId :: int
  ownerHeroId :: "int option"
  hasScepter :: "bool option"
  hasShard :: "bool option"

type_synonym abilityTable = "int \<Rightarrow> Ability option"

text \<open>An entry of a player's picked list, \<open>{ id, order }\<close>.\<close>

record PickedAbility =
  pickedId :: int
  pickedOrder :: int

record TypeCounts =
  spells :: int
  ultimates :: int
  heroes :: int

definition getNeededTypes :: TypeCounts where
  "getNeededTypes = \<lparr>spells = 3, ultimates = 1, heroes = 1\<rparr>"

text \<open>\<open>ability?.isUltimate\<close> is truthy only for a found ability whose flag is \<open>true\<close>.\<close>

definition isUltimateId :: "abilityTable \<Rightarrow> int \<Rightarrow> bool" where
  "isUltimateId getAbilityById i =
     (case getAbilityById i of None \<Rightarrow> False | Some a \<Rightarrow> isUltimate a = Some True)"

definition countType :: "abilityTable \<Rightarrow> TypeCounts \<Rightarrow> PickedAbility \<Rightarrow> TypeCounts" where
  "countType getAbilityById c p =
     (if pickedId p < 0 then c\<lparr>heroes := heroes c + 1\<rparr>
      else if isUltimateId getAbilityById (pickedId p) then c\<lparr>ultimates := ultimates c + 1\<rparr>
      else c\<lparr>spells := spells c + 1\<rparr>)"

definition getPickedTypeCounts :: "abilityTable \<Rightarrow> PickedAbility list \<Rightarrow> TypeCounts" where
  "getPickedTypeCounts getAbilityById pickedAbilities =
     foldl (countType getAbilityById) \<lparr>spells = 0, ultimates = 0, heroes = 0\<rparr> pickedAbilities"

text \<open>
  The block \<open>remaining = { spells: Math.max(0, needed.spells - picked.spells), ... }\<close>
  that renderPlayerSlots, getPlayerSynergies and getPlayerBestAbilities each compute.
\<close>

definition remainingTypes :: "abilityTable \<Rightarrow> PickedAbility list \<Rightarrow> TypeCounts" where
  "remainingTypes getAbilityById pickedAbilities =
     (let needed = getNeededTypes;
          picked = getPickedTypeCounts getAbilityById pickedAbilities
      in \<lparr>spells = max 0 (spells needed - spells picked),
          ultimates = max 0 (ultimates needed - ultimates picked),
          heroes = max 0 (heroes needed - heroes picked)\<rparr>)"

subsection \<open>Pair keys\<close>

text \<open>
  The pair statistics are a \<open>Map\<close> from a string key to a statistic. A key is written
  with a template literal, smaller identifier first, a hyphen in between, and read back
  with \<open>key.split('-')\<close> and \<open>parseInt(..., 10)\<close>.
\<close>

definition digitChars :: string where
  "digitChars = ''0123456789''"

fun showNat :: "nat \<Rightarrow> string" where
  "showNat n =
     (if n < 10 then [digitChars ! n]
      else showNat (n div 10) @ [digitChars ! (n mod 10)])"

declare showNat.simps [simp del]

text \<open>The decimal text of an integer, as a template literal prints a number.\<close>

definition showInt :: "int \<Rightarrow> string" where
  "showInt i = (if i < 0 then CHR ''-'' # showNat (nat (- i)) else showNat (nat i))"

definition pairKey :: "int \<Rightarrow> int \<Rightarrow> string" where
  "pairKey a b =
     (if a < b then showInt a @ ''-'' @ showInt b else showInt b @ ''-'' @ showInt a)"

text \<open>\<open>String.prototype.split\<close> with a one-character separator.\<close>

fun splitOn :: "char \<Rightarrow> string \<Rightarrow> string list" where
  "splitOn c [] = [[]]"
| "splitOn c (x # xs) =
     (if x = c then [] # splitOn c xs
      else (case splitOn c xs of [] \<Rightarrow> [[x]] | p # ps \<Rightarrow> (x # p) # ps))"

definition isWhiteSpace :: "char \<Rightarrow> bool" where
  "isWhiteSpace c =
     (c \<in> set [CHR '' '', CHR 0x09, CHR 0x0A, CHR 0x0B, CHR 0x0C, CHR 0x0D])"

definition isDigit :: "char \<Rightarrow> bool" where
  "isDigit c = (c \<in> set digitChars)"

definition digitValue :: "char \<Rightarrow> nat" where
  "digitValue c = length (takeWhile (\<lambda>d. d \<noteq> c) digitChars)"

definition digitsValue :: "string \<Rightarrow> nat" where
  "digitsValue ds = foldl (\<lambda>acc c. 10 * acc + digitValue c) 0 ds"

text \<open>
  \<open>parseInt(s, 10)\<close>: leading white space is skipped, one sign is read, then the
  longest run of decimal digits; with no digit the result is \<open>NaN\<close>, here \<open>None\<close>.
\<close>

definition parseInt :: "string \<Rightarrow> int option" where
  "parseInt s =
     (let t = dropWhile isWhiteSpace s;
          neg = (case t of [] \<Rightarrow> False | c # r \<Rightarrow> c = CHR ''-'');
          u = (case t of [] \<Rightarrow> []
               | c # r \<Rightarrow> if c = CHR ''-'' \<or> c = CHR ''+'' then r else t);
          ds = takeWhile isDigit u
      in if ds = [] then None
         else Some ((if neg then - 1 else 1) * int (digitsValue ds)))"

text \<open>
  \<open>const [aStr, bStr] = key.split('-')\<close> followed by the two \<open>parseInt\<close> calls. A
  missing second part is \<open>undefined\<close>, which parses to \<open>NaN\<close>.
\<close>

definition parseKey :: "string \<Rightarrow> int option \<times> int option" where
  "parseKey key =
     (case splitOn CHR ''-'' key of
        [] \<Rightarrow> (None, None)
      | [aStr] \<Rightarrow> (parseInt aStr, None)
      | aStr # bStr # rest \<Rightarrow> (parseInt aStr, parseInt bStr))"

subsection \<open>Pair statistics and win rates\<close>

record PairStat =
  winrate :: real
  numPicks :: int

type_synonym pairsMap = "(string \<times> PairStat) list"

type_synonym winrateMap = "(int \<times> real) list"

text \<open>\<open>abilityWinrates.get(a) ?? 0.5\<close>\<close>

definition winrateOrHalf :: "winrateMap \<Rightarrow> int \<Rightarrow> real" where
  "winrateOrHalf abilityWinrates a =
     (case map_of abilityWinrates a of None \<Rightarrow> 1 / 2 | Some w \<Rightarrow> w)"

text \<open>
  The four lines \<open>wrA\<close>, \<open>wrB\<close>, \<open>expected\<close>, \<open>synergy\<close> that every pair computation
  of the page repeats.
\<close>

definition synergyOf :: "winrateMap \<Rightarrow> int \<Rightarrow> int \<Rightarrow> real \<Rightarrow> real" where
  "synergyOf abilityWinrates a b pairWinrate =
     (let wrA = winrateOrHalf abilityWinrates a;
          wrB = winrateOrHalf abilityWinrates b;
          expected = (wrA + wrB) / 2
      in pairWinrate - expected)"

subsection \<open>calculateAbilitySynergy\<close>

record SynergyAcc =
  totalWeight :: real
  weightedSum :: real

text \<open>The body of the inner loop, for the abilities at positions \<open>i\<close> and \<open>j\<close>.\<close>

definition addPair :: "pairsMap \<Rightarrow> winrateMap \<Rightarrow> int \<Rightarrow> SynergyAcc \<Rightarrow> int \<Rightarrow> SynergyAcc" where
  "addPair pairs abilityWinrates a acc b =
     (case map_of pairs (pairKey a b) of
        None \<Rightarrow> acc
      | Some pair \<Rightarrow>
          if 10 \<le> numPicks pair then
            let synergy = synergyOf abilityWinrates a b (winrate pair);
                weight = ln (real_of_int (numPicks pair))
            in \<lparr>totalWeight = totalWeight acc + weight,
                weightedSum = weightedSum acc + synergy * weight\<rparr>
          else acc)"

text \<open>The two nested loops over positions \<open>i < j\<close> of the filtered list.\<close>

fun pairLoop :: "pairsMap \<Rightarrow> winrateMap \<Rightarrow> int list \<Rightarrow> SynergyAcc \<Rightarrow> SynergyAcc" where
  "pairLoop pairs abilityWinrates [] acc = acc"
| "pairLoop pairs abilityWinrates (a # rest) acc =
     pairLoop pairs abilityWinrates rest (foldl (addPair pairs abilityWinrates a) acc rest)"

definition calculateAbilitySynergy :: "int list \<Rightarrow> pairsMap \<Rightarrow> winrateMap \<Rightarrow> real option" where
  "calculateAbilitySynergy abilities pairs abilityWinrates =
     (let filteredAbilities = filter (\<lambda>i. 0 < i) abilities;
          acc = pairLoop pairs abilityWinrates filteredAbilities
                  \<lparr>totalWeight = 0, weightedSum = 0\<rparr>
      in if totalWeight acc = 0 then None
         else Some (weightedSum acc / totalWeight acc))"

text \<open>
  The log-weighted mean in the words of the specification: over the pairs of the
  player's drafted abilities that have a statistic with at least ten picks, the sum of
  synergy times ln(numPicks) divided by the sum of ln(numPicks); unknown when there is
  no such pair.
\<close>

fun pairsOf :: "'a list \<Rightarrow> ('a \<times> 'a) list" where
  "pairsOf [] = []"
| "pairsOf (a # rest) = map (Pair a) rest @ pairsOf rest"

text \<open>
  The statistic of an unordered pair is stored under the smaller identifier, a hyphen
  and the larger identifier. The independent win rate of an ability is the one recorded
  for it, and 0.5 when none is recorded.
\<close>

definition unorderedKey :: "int \<Rightarrow> int \<Rightarrow> string" where
  "unorderedKey a b = showInt (min a b) @ ''-'' @ showInt (max a b)"

definition recordedWinrate :: "winrateMap \<Rightarrow> int \<Rightarrow> real option" where
  "recordedWinrate abilityWinrates a =
     map_option snd (List.find (\<lambda>e. fst e = a) abilityWinrates)"

definition independentWinrate :: "winrateMap \<Rightarrow> int \<Rightarrow> real" where
  "independentWinrate abilityWinrates a =
     (if recordedWinrate abilityWinrates a = None then 5 / 10
      else the (recordedWinrate abilityWinrates a))"

definition qualifying :: "pairsMap \<Rightarrow> winrateMap \<Rightarrow> int \<times> int \<Rightarrow> (real \<times> int) list" where
  "qualifying pairs abilityWinrates ab =
     (case map_of pairs (unorderedKey (fst ab) (snd ab)) of
        None \<Rightarrow> []
      | Some pair \<Rightarrow>
          if 10 \<le> numPicks pair
          then [(winrate pair
                  - (independentWinrate abilityWinrates (fst ab)
                     + independentWinrate abilityWinrates (snd ab)) / 2,
                 numPicks pair)]
          else [])"

definition qualifyingPairs :: "pairsMap \<Rightarrow> winrateMap \<Rightarrow> int list \<Rightarrow> (real \<times> int) list" where
  "qualifyingPairs pairs abilityWinrates abilities =
     concat (map (qualifying pairs abilityWinrates) (pairsOf abilities))"

definition logWeightedMean :: "(real \<times> int) list \<Rightarrow> real option" where
  "logWeightedMean q =
     (if q = [] then None
      else Some ((\<Sum>sn\<leftarrow>q. fst sn * ln (real_of_int (snd sn)))
                 / (\<Sum>sn\<leftarrow>q. ln (real_of_int (snd sn)))))"

subsection \<open>Players and ownership repair: fixHeroSwaps\<close>

record WinLoss =
  wins :: int
  losses :: int
  total :: int
  winLossRate :: real

record PlayerData =
  steamId :: int
  name :: string
  hero :: int
  abilities :: "int list"
  kills :: int
  deaths :: int
  assists :: int
  gpm :: int
  xpm :: int
  lastHits :: int
  heroDamage :: int
  heroHealing :: int
  items :: "int list"
  rating :: real
  topX :: int
  winLoss :: WinLoss




record Teams =
  radiant :: "PlayerData list"
  dire :: "PlayerData list"




text \<open>A player record with a hero and an ability list; every other field is blank.\<close>

definition playerOf :: "int \<Rightarrow> int list \<Rightarrow> PlayerData" where
  "playerOf h as =
     \<lparr>steamId = h, name = [], hero = h, abilities = as, kills = 0, deaths = 0, assists = 0,
      gpm = 0, xpm = 0, lastHits = 0, heroDamage = 0, heroHealing = 0, items = [],
      rating = 0, topX = 0,
      winLoss = \<lparr>wins = 0, losses = 0, total = 0, winLossRate = 0\<rparr>\<rparr>"

subsection \<open>Top pairs of a player card\<close>

record TopPair =
  abilityA :: int
  abilityB :: int
  pairWinrate :: real
  synergy :: real

text \<open>
  \<open>Array.prototype.sort\<close> is stable, and a comparator \<open>key(b) - key(a)\<close> orders by
  descending key: \<open>sort_key\<close>, a stable insertion sort, on the negated key.
\<close>

definition topPairEntry :: "pairsMap \<Rightarrow> winrateMap \<Rightarrow> int \<times> int \<Rightarrow> TopPair list" where
  "topPairEntry abilityPairs abilityWinrates ab =
     (case map_of abilityPairs (pairKey (fst ab) (snd ab)) of
        None \<Rightarrow> []
      | Some pair \<Rightarrow>
          [\<lparr>abilityA = fst ab, abilityB = snd ab, pairWinrate = winrate pair,
            synergy = synergyOf abilityWinrates (fst ab) (snd ab) (winrate pair)\<rparr>])"

definition topPairs :: "PlayerData \<Rightarrow> pairsMap \<Rightarrow> winrateMap \<Rightarrow> TopPair list" where
  "topPairs player abilityPairs abilityWinrates =
     take 10 (sort_key (\<lambda>e. - \<bar>synergy e\<bar>)
       (concat (map (topPairEntry abilityPairs abilityWinrates) (pairsOf (abilities player)))))"

subsection \<open>Draft replay: assignments and picked abilities\<close>

record PickData =
  abilityId :: int
  pickOrder :: int

record Assignment =
  playerIndex :: nat
  side :: team

type_synonym assignmentMap = "int \<Rightarrow> Assignment option"

text \<open>
  \<open>abilityToPlayer.set(id, { playerIndex: i, side })\<close> for every ability of every
  Radiant player, then of every Dire player; a later \<open>set\<close> replaces an earlier one.
\<close>

definition assignAbilities :: "team \<Rightarrow> assignmentMap \<Rightarrow> nat \<times> PlayerData \<Rightarrow> assignmentMap" where
  "assignAbilities sd m ip =
     foldl (\<lambda>m' a. m'(a \<mapsto> \<lparr>playerIndex = fst ip, side = sd\<rparr>)) m (abilities (snd ip))"

definition abilityToPlayer :: "PlayerData list \<Rightarrow> PlayerData list \<Rightarrow> assignmentMap" where
  "abilityToPlayer radiantPlayers direPlayers =
     foldl (assignAbilities Dire)
       (foldl (assignAbilities Radiant) Map.empty (enumerate 0 radiantPlayers))
       (enumerate 0 direPlayers)"




record PickedLists =
  radiantPicked :: "PickedAbility list list"
  direPicked :: "PickedAbility list list"

datatype jsError = TypeError

text \<open>
  One round of \<open>picks.slice(0, currentPick).forEach\<close>. \<open>target[playerIndex]\<close> is
  \<open>undefined\<close> beyond the five lists, and \<open>push\<close> on it throws.
\<close>

definition pushPick :: "assignmentMap \<Rightarrow> PickedLists \<Rightarrow> PickData \<Rightarrow> jsError + PickedLists" where
  "pushPick playerAbilities st pick =
     (case playerAbilities (abilityId pick) of
        None \<Rightarrow> Inr st
      | Some assignment \<Rightarrow>
          let target = (if side assignment = Radiant then radiantPicked st else direPicked st);
              k = playerIndex assignment
          in if k < length target then
               let target' = target[k := target ! k
                     @ [\<lparr>pickedId = abilityId pick, pickedOrder = pickOrder pick\<rparr>]]
               in Inr (if side assignment = Radiant then st\<lparr>radiantPicked := target'\<rparr>
                       else st\<lparr>direPicked := target'\<rparr>)
             else Inl TypeError)"

fun pushPicks :: "assignmentMap \<Rightarrow> PickedLists \<Rightarrow> PickData list \<Rightarrow> jsError + PickedLists" where
  "pushPicks playerAbilities st [] = Inr st"
| "pushPicks playerAbilities st (pick # rest) =
     (case pushPick playerAbilities st pick of
        Inl e \<Rightarrow> Inl e
      | Inr st' \<Rightarrow> pushPicks playerAbilities st' rest)"

text \<open>The step index is within 0..picks.length, so \<open>slice(0, currentPick)\<close> is \<open>take\<close>.\<close>

definition playerPickedAbilities ::
  "PickData list \<Rightarrow> nat \<Rightarrow> assignmentMap \<Rightarrow> jsError + PickedLists" where
  "playerPickedAbilities picks currentPick playerAbilities =
     pushPicks playerAbilities
       \<lparr>radiantPicked = replicate 5 [], direPicked = replicate 5 []\<rparr>
       (take currentPick picks)"

text \<open>\<open>playerPickedAbilities.radiant[playerIndex]\<close>, \<open>undefined\<close> as \<open>None\<close>.\<close>

definition pickedFor :: "PickedLists \<Rightarrow> team \<Rightarrow> nat \<Rightarrow> PickedAbility list option" where
  "pickedFor st sd i =
     (let lists = (if sd = Radiant then radiantPicked st else direPicked st)
      in if i < length lists then Some (lists ! i) else None)"

definition pickedIds :: "PickData list \<Rightarrow> nat \<Rightarrow> int set" where
  "pickedIds picks currentPick = set (map abilityId (take currentPick picks))"

text \<open>The ignored spells are given by their ability identifiers.\<close>

definition allPoolIds :: "PickData list \<Rightarrow> int list \<Rightarrow> int set" where
  "allPoolIds picks ignoredSpells = set (map abilityId picks) \<union> set ignoredSpells"

text \<open>\<open>Set.prototype.has\<close> on a parsed number: \<open>NaN\<close> is in no set of identifiers.\<close>

definition hasNum :: "int set \<Rightarrow> int option \<Rightarrow> bool" where
  "hasNum s x = (case x of None \<Rightarrow> False | Some v \<Rightarrow> v \<in> s)"

subsection \<open>Draft replay: best available pairs\<close>

record AvailablePair = TopPair +
  pairNumPicks :: int

text \<open>
  The body of \<open>abilityPairs.forEach\<close> in bestAvailablePairs: the entries it pushes for
  one key, none when it returns early.
\<close>

definition availablePair ::
  "winrateMap \<Rightarrow> int set \<Rightarrow> int set \<Rightarrow> string \<times> PairStat \<Rightarrow> AvailablePair list" where
  "availablePair abilityWinrates pool picked kp =
     (let ab = parseKey (fst kp); a = fst ab; b = snd ab; pair = snd kp in
      if \<not> hasNum pool a \<or> \<not> hasNum pool b then []
      else if hasNum picked a \<or> hasNum picked b then []
      else if numPicks pair < 10 then []
      else (case (a, b) of
              (Some x, Some y) \<Rightarrow>
                [\<lparr>abilityA = x, abilityB = y, pairWinrate = winrate pair,
                  synergy = synergyOf abilityWinrates x y (winrate pair),
                  pairNumPicks = numPicks pair\<rparr>]
            | _ \<Rightarrow> []))"

definition bestAvailablePairs ::
  "pairsMap \<Rightarrow> winrateMap \<Rightarrow> int set \<Rightarrow> int set \<Rightarrow> AvailablePair list" where
  "bestAvailablePairs abilityPairs abilityWinrates pool picked =
     take 10 (sort_key (\<lambda>e. - pairWinrate e)
       (concat (map (availablePair abilityWinrates pool picked) abilityPairs)))"

definition getHeroIdForAbility :: "abilityTable \<Rightarrow> int \<Rightarrow> int option" where
  "getHeroIdForAbility getAbilityById i =
     (if i < 0 then Some \<bar>i\<bar>
      else (case getAbilityById i of None \<Rightarrow> None | Some ability \<Rightarrow> ownerHeroId ability))"

definition availablePairDiffHeroes ::
  "abilityTable \<Rightarrow> winrateMap \<Rightarrow> int set \<Rightarrow> int set \<Rightarrow> string \<times> PairStat
     \<Rightarrow> AvailablePair list" where
  "availablePairDiffHeroes getAbilityById abilityWinrates pool picked kp =
     (let ab = parseKey (fst kp); a = fst ab; b = snd ab; pair = snd kp in
      if \<not> hasNum pool a \<or> \<not> hasNum pool b then []
      else if hasNum picked a \<or> hasNum picked b then []
      else if numPicks pair < 10 then []
      else (case (a, b) of
              (Some x, Some y) \<Rightarrow>
                let heroA = getHeroIdForAbility getAbilityById x;
                    heroB = getHeroIdForAbility getAbilityById y
                in if heroA = None \<or> heroB = None then []
                   else if heroA = heroB then []
                   else [\<lparr>abilityA = x, abilityB = y, pairWinrate = winrate pair,
                          synergy = synergyOf abilityWinrates x y (winrate pair),
                          pairNumPicks = numPicks pair\<rparr>]
            | _ \<Rightarrow> []))"

definition bestAvailablePairsDiffHeroes ::
  "abilityTable \<Rightarrow> pairsMap \<Rightarrow> winrateMap \<Rightarrow> int set \<Rightarrow> int set \<Rightarrow> AvailablePair list" where
  "bestAvailablePairsDiffHeroes getAbilityById abilityPairs abilityWinrates pool picked =
     take 10 (sort_key (\<lambda>e. - pairWinrate e)
       (concat (map (availablePairDiffHeroes getAbilityById abilityWinrates pool picked)
          abilityPairs)))"

subsection \<open>Draft replay: suggestions for one player\<close>

datatype abilityType = Spell | Ultimate | Hero

definition getAbilityType :: "abilityTable \<Rightarrow> int \<Rightarrow> abilityType" where
  "getAbilityType getAbilityById i =
     (if i < 0 then Hero
      else if isUltimateId getAbilityById i then Ultimate else Spell)"

text \<open>The three early returns on the slot type of a pool ability.\<close>

definition typeNeeded :: "abilityTable \<Rightarrow> TypeCounts \<Rightarrow> int \<Rightarrow> bool" where
  "typeNeeded getAbilityById remaining i =
     (let poolType = getAbilityType getAbilityById i in
      \<not> (poolType = Spell \<and> spells remaining = 0)
      \<and> \<not> (poolType = Ultimate \<and> ultimates remaining = 0)
      \<and> \<not> (poolType = Hero \<and> heroes remaining = 0))"

record Suggestion =
  poolAbilityId :: int
  sugWinrate :: real
  sugSynergy :: real

text \<open>Assignment to the fields of the first entry that \<open>find\<close> returns.\<close>

fun updateFirst :: "('a \<Rightarrow> bool) \<Rightarrow> ('a \<Rightarrow> 'a) \<Rightarrow> 'a list \<Rightarrow> 'a list" where
  "updateFirst P f [] = []"
| "updateFirst P f (x # xs) = (if P x then f x # xs else x # updateFirst P f xs)"

text \<open>
  The choice of \<open>ownedId\<close> and \<open>poolId\<close> for a parsed key; \<open>null\<close> is \<open>None\<close>.
\<close>

definition ownedAndPool ::
  "int set \<Rightarrow> int set \<Rightarrow> int set \<Rightarrow> int option \<times> int option \<Rightarrow> int option \<times> int option" where
  "ownedAndPool playerAbilityIds picked pool ab =
     (let a = fst ab; b = snd ab in
      if hasNum playerAbilityIds a \<and> \<not> hasNum picked b \<and> hasNum pool b then (a, b)
      else if hasNum playerAbilityIds b \<and> \<not> hasNum picked a \<and> hasNum pool a then (b, a)
      else (None, None))"

text \<open>The body of \<open>abilityPairs.forEach\<close> in getPlayerSynergies.\<close>

definition synergyStep ::
  "abilityTable \<Rightarrow> winrateMap \<Rightarrow> int set \<Rightarrow> int set \<Rightarrow> int set \<Rightarrow> TypeCounts
     \<Rightarrow> Suggestion list \<Rightarrow> string \<times> PairStat \<Rightarrow> Suggestion list" where
  "synergyStep getAbilityById abilityWinrates playerAbilityIds picked pool remaining
       synergies kp =
     (let pair = snd kp in
      case ownedAndPool playerAbilityIds picked pool (parseKey (fst kp)) of
        (Some ownedId, Some poolId) \<Rightarrow>
          if poolId = 0 then synergies
          else if numPicks pair < 10 then synergies
          else if \<not> typeNeeded getAbilityById remaining poolId then synergies
          else
            let s = synergyOf abilityWinrates ownedId poolId (winrate pair) in
            (case List.find (\<lambda>e. poolAbilityId e = poolId) synergies of
               Some existing \<Rightarrow>
                 if sugSynergy existing < s
                 then updateFirst (\<lambda>e. poolAbilityId e = poolId)
                        (\<lambda>e. e\<lparr>sugWinrate := winrate pair, sugSynergy := s\<rparr>) synergies
                 else synergies
             | None \<Rightarrow>
                 synergies @ [\<lparr>poolAbilityId = poolId, sugWinrate = winrate pair,
                               sugSynergy = s\<rparr>])
      | _ \<Rightarrow> synergies)"

text \<open>getPlayerSynergies once the player's picked list is at hand.\<close>

definition synergiesFor ::
  "abilityTable \<Rightarrow> pairsMap \<Rightarrow> winrateMap \<Rightarrow> int set \<Rightarrow> int set \<Rightarrow> PickedAbility list
     \<Rightarrow> Suggestion list" where
  "synergiesFor getAbilityById abilityPairs abilityWinrates pool picked pickedAbilities =
     (let remaining = remainingTypes getAbilityById pickedAbilities;
          playerAbilityIds = set (map pickedId pickedAbilities)
      in if pickedAbilities = [] then []
         else
           sort_key (\<lambda>e. - sugSynergy e)
             (filter (\<lambda>e. 0 < sugSynergy e)
                (foldl (synergyStep getAbilityById abilityWinrates playerAbilityIds picked pool
                          remaining) [] abilityPairs)))"

definition getPlayerSynergies ::
  "abilityTable \<Rightarrow> pairsMap \<Rightarrow> winrateMap \<Rightarrow> int set \<Rightarrow> int set \<Rightarrow> PickedLists
     \<Rightarrow> team \<Rightarrow> nat \<Rightarrow> jsError + Suggestion list" where
  "getPlayerSynergies getAbilityById abilityPairs abilityWinrates pool picked st sd i =
     (case pickedFor st sd i of
        None \<Rightarrow> Inl TypeError
      | Some pickedAbilities \<Rightarrow>
          Inr (synergiesFor getAbilityById abilityPairs abilityWinrates pool picked
                 pickedAbilities))"

record BestAbility =
  bestId :: int
  bestWinrate :: real

definition bestFor ::
  "abilityTable \<Rightarrow> winrateMap \<Rightarrow> int set \<Rightarrow> int set \<Rightarrow> PickedAbility list
     \<Rightarrow> BestAbility list" where
  "bestFor getAbilityById abilityWinrates pool picked pickedAbilities =
     (let remaining = remainingTypes getAbilityById pickedAbilities in
      sort_key (\<lambda>e. - bestWinrate e)
        (map (\<lambda>iw. \<lparr>bestId = fst iw, bestWinrate = snd iw\<rparr>)
           (filter (\<lambda>iw. fst iw \<in> pool \<and> fst iw \<notin> picked
                          \<and> typeNeeded getAbilityById remaining (fst iw))
              abilityWinrates)))"

definition getPlayerBestAbilities ::
  "abilityTable \<Rightarrow> winrateMap \<Rightarrow> int set \<Rightarrow> int set \<Rightarrow> PickedLists
     \<Rightarrow> team \<Rightarrow> nat \<Rightarrow> jsError + BestAbility list" where
  "getPlayerBestAbilities getAbilityById abilityWinrates pool picked st sd i =
     (case pickedFor st sd i of
        None \<Rightarrow> Inl TypeError
      | Some pickedAbilities \<Rightarrow>
          Inr (bestFor getAbilityById abilityWinrates pool picked pickedAbilities))"

text \<open>
  What renderPlayerSuggestions puts in the row: the synergy entries after \<open>SYN:\<close> and
  the best abilities after \<open>BEST:\<close>.
\<close>

record SuggestionRow =
  synShown :: "Suggestion list"
  bestShown :: "BestAbility list"

definition suggestionRow :: "Suggestion list \<Rightarrow> BestAbility list \<Rightarrow> SuggestionRow" where
  "suggestionRow synergies bestAbilities =
     (let synCount = length synergies;
          synToShow = (if synCount = 0 then 0 else min synCount 3);
          bestToShow = 5 - synToShow;
          synAbilityIds = set (map poolAbilityId (take synToShow synergies));
          filteredBest = take bestToShow
            (filter (\<lambda>b. bestId b \<notin> synAbilityIds) bestAbilities)
      in \<lparr>synShown = take synToShow synergies, bestShown = filteredBest\<rparr>)"

definition renderPlayerSuggestions ::
  "abilityTable \<Rightarrow> pairsMap \<Rightarrow> winrateMap \<Rightarrow> int set \<Rightarrow> int set \<Rightarrow> PickedLists
     \<Rightarrow> team \<Rightarrow> nat \<Rightarrow> jsError + SuggestionRow" where
  "renderPlayerSuggestions getAbilityById abilityPairs abilityWinrates pool picked st sd i =
     (case getPlayerSynergies getAbilityById abilityPairs abilityWinrates pool picked st sd i of
        Inl e \<Rightarrow> Inl e
      | Inr synergies \<Rightarrow>
          (case getPlayerBestAbilities getAbilityById abilityWinrates pool picked st sd i of
             Inl e \<Rightarrow> Inl e
           | Inr bestAbilities \<Rightarrow> Inr (suggestionRow synergies bestAbilities)))"

subsection \<open>Draft replay: role analysis\<close>









text \<open>\<open>playerPickedAbilities.radiant[playerIdx]?.map(a => a.id) ?? []\<close>\<close>

definition pickedIdsFor :: "PickedLists \<Rightarrow> team \<Rightarrow> nat \<Rightarrow> int list" where
  "pickedIdsFor st sd playerIdx =
     (case pickedFor st sd playerIdx of None \<Rightarrow> [] | Some l \<Rightarrow> map pickedId l)"








text \<open>
  The entries that the pick loop appends to the list of player \<open>i\<close> of side \<open>sd\<close>:
  the picks that the assignment map gives to that player, in pick-list order.
\<close>

definition entriesFor :: "assignmentMap \<Rightarrow> team \<Rightarrow> nat \<Rightarrow> PickData list \<Rightarrow> PickedAbility list" where
  "entriesFor m sd i pks =
     map (\<lambda>pk. \<lparr>pickedId = abilityId pk, pickedOrder = pickOrder pk\<rparr>)
       (filter (\<lambda>pk. m (abilityId pk) = Some \<lparr>playerIndex = i, side = sd\<rparr>) pks)"

subsection \<open>Example match\<close>

text \<open>Ten players with two abilities each, and the twenty picks of their draft.\<close>

definition exampleRadiant :: "PlayerData list" where
  "exampleRadiant =
     [playerOf 1 [11, - 1], playerOf 2 [12, - 2], playerOf 3 [13, - 3],
      playerOf 4 [14, - 4], playerOf 5 [15, - 5]]"

definition exampleDire :: "PlayerData list" where
  "exampleDire =
     [playerOf 6 [16, - 6], playerOf 7 [17, - 7], playerOf 8 [18, - 8],
      playerOf 9 [19, - 9], playerOf 10 [20, - 10]]"

definition examplePicks :: "PickData list" where
  "examplePicks =
     map (\<lambda>ao. \<lparr>abilityId = fst ao, pickOrder = snd ao\<rparr>)
       [(11, 1), (16, 2), (12, 3), (17, 4), (13, 5), (18, 6), (14, 7), (19, 8), (15, 9),
        (20, 10), (- 10, 11), (- 5, 12), (- 9, 13), (- 4, 14), (- 8, 15), (- 3, 16),
        (- 7, 17), (- 2, 18), (- 6, 19), (- 1, 20)]"



definition noAbilities :: abilityTable where
  "noAbilities = Map.empty"

subsection \<open>Sample-size floor\<close>

text \<open>
  A pair of abilities is above the floor when its statistic exists and has at least ten
  picks. A suggestion is supported by the statistics when it comes from one entry with
  at least ten picks whose key names the suggested pool ability and an ability of the
  player, and the suggestion carries that entry's win rate and synergy.
\<close>

definition aboveFloor :: "pairsMap \<Rightarrow> int \<Rightarrow> int \<Rightarrow> bool" where
  "aboveFloor abilityPairs a b =
     (case map_of abilityPairs (pairKey a b) of
        None \<Rightarrow> False
      | Some pair \<Rightarrow> 10 \<le> numPicks pair)"

definition supportedBy :: "pairsMap \<Rightarrow> winrateMap \<Rightarrow> int set \<Rightarrow> Suggestion \<Rightarrow> bool" where
  "supportedBy abilityPairs abilityWinrates playerAbilityIds e =
     (\<exists>kp \<in> set abilityPairs. \<exists>ownedId \<in> playerAbilityIds.
        10 \<le> numPicks (snd kp)
        \<and> (parseKey (fst kp) = (Some ownedId, Some (poolAbilityId e))
             \<or> parseKey (fst kp) = (Some (poolAbilityId e), Some ownedId))
        \<and> sugWinrate e = winrate (snd kp)
        \<and> sugSynergy e = synergyOf abilityWinrates ownedId (poolAbilityId e) (winrate (snd kp)))"

text \<open>
  Pair statistics for the example: two entries with enough picks, and two entries with
  high win rates but fewer than ten picks.
\<close>

definition examplePairs :: pairsMap where
  "examplePairs =
     [(''11-12'', \<lparr>winrate = 60 / 100, numPicks = 50\<rparr>),
      (''12-13'', \<lparr>winrate = 70 / 100, numPicks = 40\<rparr>),
      (''13-14'', \<lparr>winrate = 99 / 100, numPicks = 9\<rparr>),
      (''11-13'', \<lparr>winrate = 95 / 100, numPicks = 5\<rparr>)]"

text \<open>The picked lists of the example after its first two picks.\<close>

definition examplePickedAtTwo :: PickedLists where
  "examplePickedAtTwo =
     \<lparr>radiantPicked = [[\<lparr>pickedId = 11, pickedOrder = 1\<rparr>], [], [], [], []],
      direPicked = [[\<lparr>pickedId = 16, pickedOrder = 2\<rparr>], [], [], [], []]\<rparr>"

subsection \<open>Slot types in the words of the specification\<close>

text \<open>
  A negative identifier is a hero innate; any other identifier is an ultimate when the
  static table flags it as one, and a spell otherwise. (Zero is not an identifier.)
\<close>

datatype slotType = SpellSlot | UltimateSlot | HeroInnateSlot

definition slotTypeOf :: "abilityTable \<Rightarrow> int \<Rightarrow> slotType" where
  "slotTypeOf getAbilityById i =
     (if i < 0 then HeroInnateSlot
      else if map_option isUltimate (getAbilityById i) = Some (Some True) then UltimateSlot
      else SpellSlot)"

definition pickedOfType :: "abilityTable \<Rightarrow> slotType \<Rightarrow> PickedAbility list \<Rightarrow> nat" where
  "pickedOfType getAbilityById ty pickedAbilities =
     length (filter (\<lambda>p. slotTypeOf getAbilityById (pickedId p) = ty) pickedAbilities)"

text \<open>A static table for the examples: ability 9 is an ultimate.\<close>

definition exampleAbilities :: abilityTable where
  "exampleAbilities =
     Map.empty(9 \<mapsto> \<lparr>englishName = ''Nine'', shortName = ''nine'', isUltimate = Some True,
                      tooltip = None, valveId = 9, ownerHeroId = Some 3,
                      hasScepter = Some True, hasShard = None\<rparr>)"

subsection \<open>Exchanged ability lists\<close>




subsection \<open>Abilities on one final list only\<close>

definition noSharedAbility :: "PlayerData list \<Rightarrow> bool" where
  "noSharedAbility players =
     (\<forall>i<length players. \<forall>j<length players. i \<noteq> j \<longrightarrow>
        set (abilities (players ! i)) \<inter> set (abilities (players ! j)) = {})"

text \<open>A match in which ability 50 is on the final lists of two Radiant players.\<close>

definition sharedRadiant :: "PlayerData list" where
  "sharedRadiant =
     [playerOf 1 [50, 51], playerOf 2 [50, 52], playerOf 3 [53], playerOf 4 [54],
      playerOf 5 [55]]"

definition sharedDire :: "PlayerData list" where
  "sharedDire =
     [playerOf 6 [56], playerOf 7 [57], playerOf 8 [58], playerOf 9 [59], playerOf 10 [60]]"

definition sharedPicks :: "PickData list" where
  "sharedPicks =
     map (\<lambda>ao. \<lparr>abilityId = fst ao, pickOrder = snd ao\<rparr>)
       [(50, 1), (51, 2), (52, 3), (53, 4), (54, 5), (55, 6), (56, 7), (57, 8), (58, 9),
        (59, 10), (60, 11)]"



section \<open>Theorems\<close>

subsection \<open>Snake draft order\<close>

lemma jsRem_nonneg: "0 \<le> a \<Longrightarrow> jsRem a b = a mod \<bar>b\<bar>"
  by (cases "a = 0") (simp_all add: jsRem_def)

lemma getPickingInfo_pos:
  assumes "0 < n"
  shows "getPickingInfo (int n) =
     (if even ((n - 1) div 10)
      then \<lparr>team = (if even ((n - 1) mod 10) then Radiant else Dire),
            playerPos = int (((n - 1) mod 10) div 2)\<rparr>
      else \<lparr>team = (if even ((n - 1) mod 10) then Dire else Radiant),
            playerPos = 4 - int (((n - 1) mod 10) div 2)\<rparr>)"
proof -
  define k where "k = n - 1"
  have n: "int n - 1 = int k" using assms by (simp add: k_def)
  have d: "int k div 10 = int (k div 10)" by (simp add: zdiv_int)
  have m: "int k mod 10 = int (k mod 10)" by (simp add: zmod_int)
  have r1: "jsRem (int k) 10 = int (k mod 10)"
    by (simp add: jsRem_nonneg m)
  have r2: "jsRem (int (k div 10)) 2 = int ((k div 10) mod 2)"
    by (simp add: jsRem_nonneg zmod_int)
  have r3: "jsRem (int (k mod 10)) 2 = int ((k mod 10) mod 2)"
    by (simp add: jsRem_nonneg zmod_int)
  have d2: "int (k mod 10) div 2 = int ((k mod 10) div 2)" by (simp add: zdiv_int)
  have e1: "(int ((k div 10) mod 2) = 0) = even (k div 10)"
    by (simp add: even_iff_mod_2_eq_zero)
  have e2: "(int ((k mod 10) mod 2) = 0) = even (k mod 10)"
    by (simp add: even_iff_mod_2_eq_zero)
  from assms have "int n \<noteq> 0" by simp
  then show ?thesis
    unfolding getPickingInfo_def Let_def n d r1 r2 r3 d2 e1 e2 k_def [symmetric]
    by simp
qed

lemma snakeRule_pos:
  assumes "0 < n"
  shows "snakeRule n =
     (if even ((n - 1) div 10)
      then (if even ((n - 1) mod 10) then Radiant else Dire, int (((n - 1) mod 10) div 2))
      else (if even ((n - 1) mod 10) then Dire else Radiant, 4 - int (((n - 1) mod 10) div 2)))"
proof -
  define j where "j = (n - 1) mod 10"
  have "j < 10" by (simp add: j_def)
  then consider "j = 0" | "j = 1" | "j = 2" | "j = 3" | "j = 4"
    | "j = 5" | "j = 6" | "j = 7" | "j = 8" | "j = 9"
    by atomize_elim arith
  then have "(if even ((n - 1) div 10) then forwardPhase ! j else rev forwardPhase ! j) =
     (if even ((n - 1) div 10)
      then (if even j then Radiant else Dire, int (j div 2))
      else (if even j then Dire else Radiant, 4 - int (j div 2)))"
    by cases (simp_all add: forwardPhase_def)
  then show ?thesis using assms unfolding snakeRule_def j_def by simp
qed

text \<open>
  C3. getPickingInfo returns a (team, seat) pair for every pick number 0, 1, 2, ... and
  that pair is the one the snake-draft phase rule names: phases of ten picks, even phases
  forward with Radiant first, odd phases reversed with Dire first. Pick 0 is
  (Radiant, seat 0), pick 1 is (Radiant, seat 0), pick 10 is (Dire, seat 4), pick 11 is
  (Dire, seat 4) and pick 20 is (Radiant, seat 0).
\<close>

theorem getPickingInfo_snake:
  "(team (getPickingInfo (int n)), playerPos (getPickingInfo (int n))) = snakeRule n
   \<and> getPickingInfo 0 = \<lparr>team = Radiant, playerPos = 0\<rparr>
   \<and> getPickingInfo 1 = \<lparr>team = Radiant, playerPos = 0\<rparr>
   \<and> getPickingInfo 10 = \<lparr>team = Dire, playerPos = 4\<rparr>
   \<and> getPickingInfo 11 = \<lparr>team = Dire, playerPos = 4\<rparr>
   \<and> getPickingInfo 20 = \<lparr>team = Radiant, playerPos = 0\<rparr>"
proof -
  have gen: "(team (getPickingInfo (int n)), playerPos (getPickingInfo (int n))) = snakeRule n"
  proof (cases "n = 0")
    case True
    then show ?thesis by (simp add: getPickingInfo_def snakeRule_def)
  next
    case False
    then have "0 < n" by simp
    then show ?thesis by (simp add: getPickingInfo_pos snakeRule_pos)
  qed
  have p0: "getPickingInfo 0 = \<lparr>team = Radiant, playerPos = 0\<rparr>"
    by (simp add: getPickingInfo_def)
  have p1: "getPickingInfo 1 = \<lparr>team = Radiant, playerPos = 0\<rparr>"
    using getPickingInfo_pos [of 1] by simp
  have p10: "getPickingInfo 10 = \<lparr>team = Dire, playerPos = 4\<rparr>"
    using getPickingInfo_pos [of 10] by simp
  have p11: "getPickingInfo 11 = \<lparr>team = Dire, playerPos = 4\<rparr>"
    using getPickingInfo_pos [of 11] by simp
  have p20: "getPickingInfo 20 = \<lparr>team = Radiant, playerPos = 0\<rparr>"
    using getPickingInfo_pos [of 20] by simp
  from gen p0 p1 p10 p11 p20 show ?thesis by blast
qed

subsection \<open>Step index\<close>

text \<open>
  C8. From any step index in the range 0..N, every control leaves the index in 0..N:
  Next gives s + 1 capped at N, Prev gives s - 1 floored at 0, Start gives 0, End gives N,
  and the slider gives clamp(k, 0, N) for a requested position k. Each control returns
  an index; none has an error outcome.
\<close>

theorem setCurrentPick_in_range:
  assumes "0 \<le> s" and "s \<le> int N"
  shows "0 \<le> setCurrentPick N s c \<and> setCurrentPick N s c \<le> int N
     \<and> setCurrentPick N s Next = (if s + 1 \<le> int N then s + 1 else int N)
     \<and> setCurrentPick N s Prev = (if 0 \<le> s - 1 then s - 1 else 0)
     \<and> setCurrentPick N s Start = 0
     \<and> setCurrentPick N s End = int N
     \<and> setCurrentPick N s (Slider k) = clamp k 0 (int N)"
proof -
  have range: "0 \<le> setCurrentPick N s c \<and> setCurrentPick N s c \<le> int N"
    using assms by (cases c) (auto simp: rangeInputValue_def)
  have slider: "setCurrentPick N s (Slider k) = clamp k 0 (int N)"
    by (auto simp: rangeInputValue_def clamp_def)
  have nxt: "setCurrentPick N s Next = (if s + 1 \<le> int N then s + 1 else int N)"
    by auto
  have prv: "setCurrentPick N s Prev = (if 0 \<le> s - 1 then s - 1 else 0)"
    by auto
  from range slider nxt prv show ?thesis by simp
qed

theorem setCurrentPick_in_range_witness:
  "setCurrentPick 50 50 Next = 50 \<and> setCurrentPick 50 0 Prev = 0
   \<and> setCurrentPick 50 7 (Slider 99) = 50 \<and> setCurrentPick 50 7 (Slider (- 3)) = 0
   \<and> setCurrentPick 50 7 (Slider 20) = 20"
  using setCurrentPick_in_range [of 50 50 Next 99]
    setCurrentPick_in_range [of 0 50 Prev "- 3"]
    setCurrentPick_in_range [of 7 50 Start 20]
  by (simp add: clamp_def)

subsection \<open>Slots still needed\<close>

lemma countType_total:
  "spells (countType t c p) + ultimates (countType t c p) + heroes (countType t c p)
     = spells c + ultimates c + heroes c + 1"
  by (simp add: countType_def)

lemma countType_mono:
  "spells c \<le> spells (countType t c p) \<and> ultimates c \<le> ultimates (countType t c p)
     \<and> heroes c \<le> heroes (countType t c p)"
  by (simp add: countType_def)

lemma foldl_countType_total:
  "spells (foldl (countType t) c ps) + ultimates (foldl (countType t) c ps)
     + heroes (foldl (countType t) c ps)
     = spells c + ultimates c + heroes c + int (length ps)"
proof (induction ps arbitrary: c)
  case Nil
  show ?case by simp
next
  case (Cons p ps)
  show ?case using Cons.IH [of "countType t c p"] countType_total [of t c p] by simp
qed

lemma getPickedTypeCounts_total:
  "spells (getPickedTypeCounts t ps) + ultimates (getPickedTypeCounts t ps)
     + heroes (getPickedTypeCounts t ps) = int (length ps)"
  using foldl_countType_total [of t "\<lparr>spells = 0, ultimates = 0, heroes = 0\<rparr>" ps]
  by (simp add: getPickedTypeCounts_def)

lemma isUltimateId_slot:
  "\<not> i < 0 \<Longrightarrow> isUltimateId t i = (slotTypeOf t i = UltimateSlot)"
  by (cases "t i") (auto simp: isUltimateId_def slotTypeOf_def)

lemma countType_slot:
  "countType t c p =
     (if slotTypeOf t (pickedId p) = HeroInnateSlot then c\<lparr>heroes := heroes c + 1\<rparr>
      else if slotTypeOf t (pickedId p) = UltimateSlot then c\<lparr>ultimates := ultimates c + 1\<rparr>
      else c\<lparr>spells := spells c + 1\<rparr>)"
proof (cases "pickedId p < 0")
  case True
  then show ?thesis by (simp add: countType_def slotTypeOf_def)
next
  case False
  then have "slotTypeOf t (pickedId p) \<noteq> HeroInnateSlot" by (simp add: slotTypeOf_def)
  with False show ?thesis by (simp add: countType_def isUltimateId_slot)
qed

lemma foldl_countType_fields:
  "spells (foldl (countType t) c ps) = spells c + int (pickedOfType t SpellSlot ps)
   \<and> ultimates (foldl (countType t) c ps) = ultimates c + int (pickedOfType t UltimateSlot ps)
   \<and> heroes (foldl (countType t) c ps) = heroes c + int (pickedOfType t HeroInnateSlot ps)"
proof (induction ps arbitrary: c)
  case Nil
  show ?case by (simp add: pickedOfType_def)
next
  case (Cons p ps)
  show ?case
  proof (cases "slotTypeOf t (pickedId p)")
    case SpellSlot
    then show ?thesis
      using Cons.IH [of "countType t c p"] by (simp add: countType_slot pickedOfType_def)
  next
    case UltimateSlot
    then show ?thesis
      using Cons.IH [of "countType t c p"] by (simp add: countType_slot pickedOfType_def)
  next
    case HeroInnateSlot
    then show ?thesis
      using Cons.IH [of "countType t c p"] by (simp add: countType_slot pickedOfType_def)
  qed
qed

lemma getPickedTypeCounts_fields:
  "spells (getPickedTypeCounts t ps) = int (pickedOfType t SpellSlot ps)
   \<and> ultimates (getPickedTypeCounts t ps) = int (pickedOfType t UltimateSlot ps)
   \<and> heroes (getPickedTypeCounts t ps) = int (pickedOfType t HeroInnateSlot ps)"
  using foldl_countType_fields [of t "\<lparr>spells = 0, ultimates = 0, heroes = 0\<rparr>" ps]
  by (simp add: getPickedTypeCounts_def)

lemma pickedOfType_total:
  "pickedOfType t SpellSlot ps + pickedOfType t UltimateSlot ps
     + pickedOfType t HeroInnateSlot ps = length ps"
proof (induction ps)
  case Nil
  show ?case by (simp add: pickedOfType_def)
next
  case (Cons p ps)
  then show ?case
    by (cases "slotTypeOf t (pickedId p)") (simp_all add: pickedOfType_def)
qed

text \<open>
  C6. The three slot-needed counts of a player are max(0, target - picked of that
  type) for the targets 3 spells, 1 ultimate and 1 hero innate, where a pick is a hero
  innate when its identifier is negative, an ultimate when the static table flags it,
  and a spell otherwise. They are never negative, and when the player's picks so far
  hold at most 3 spells, 1 ultimate and 1 hero innate they add up to 5 minus the number
  of abilities picked so far.
\<close>

theorem remainingTypes_sum:
  "spells (remainingTypes t ps) = max 0 (3 - int (pickedOfType t SpellSlot ps))
   \<and> ultimates (remainingTypes t ps) = max 0 (1 - int (pickedOfType t UltimateSlot ps))
   \<and> heroes (remainingTypes t ps) = max 0 (1 - int (pickedOfType t HeroInnateSlot ps))
   \<and> 0 \<le> spells (remainingTypes t ps) \<and> 0 \<le> ultimates (remainingTypes t ps)
   \<and> 0 \<le> heroes (remainingTypes t ps)
   \<and> (pickedOfType t SpellSlot ps \<le> 3 \<and> pickedOfType t UltimateSlot ps \<le> 1
        \<and> pickedOfType t HeroInnateSlot ps \<le> 1
      \<longrightarrow> spells (remainingTypes t ps) + ultimates (remainingTypes t ps)
            + heroes (remainingTypes t ps) = 5 - int (length ps))"
  using getPickedTypeCounts_fields [of t ps] pickedOfType_total [of t ps]
  by (simp add: remainingTypes_def getNeededTypes_def Let_def)

theorem remainingTypes_sum_witness:
  "pickedOfType exampleAbilities SpellSlot
       [\<lparr>pickedId = 7, pickedOrder = 1\<rparr>, \<lparr>pickedId = 9, pickedOrder = 10\<rparr>,
        \<lparr>pickedId = - 3, pickedOrder = 12\<rparr>] = 1
   \<and> pickedOfType exampleAbilities UltimateSlot
       [\<lparr>pickedId = 7, pickedOrder = 1\<rparr>, \<lparr>pickedId = 9, pickedOrder = 10\<rparr>,
        \<lparr>pickedId = - 3, pickedOrder = 12\<rparr>] = 1
   \<and> pickedOfType exampleAbilities HeroInnateSlot
       [\<lparr>pickedId = 7, pickedOrder = 1\<rparr>, \<lparr>pickedId = 9, pickedOrder = 10\<rparr>,
        \<lparr>pickedId = - 3, pickedOrder = 12\<rparr>] = 1
   \<and> remainingTypes exampleAbilities
       [\<lparr>pickedId = 7, pickedOrder = 1\<rparr>, \<lparr>pickedId = 9, pickedOrder = 10\<rparr>,
        \<lparr>pickedId = - 3, pickedOrder = 12\<rparr>]
     = \<lparr>spells = 2, ultimates = 0, heroes = 0\<rparr>
   \<and> spells (remainingTypes exampleAbilities
       [\<lparr>pickedId = 7, pickedOrder = 1\<rparr>, \<lparr>pickedId = 9, pickedOrder = 10\<rparr>,
        \<lparr>pickedId = - 3, pickedOrder = 12\<rparr>])
     + ultimates (remainingTypes exampleAbilities
       [\<lparr>pickedId = 7, pickedOrder = 1\<rparr>, \<lparr>pickedId = 9, pickedOrder = 10\<rparr>,
        \<lparr>pickedId = - 3, pickedOrder = 12\<rparr>])
     + heroes (remainingTypes exampleAbilities
       [\<lparr>pickedId = 7, pickedOrder = 1\<rparr>, \<lparr>pickedId = 9, pickedOrder = 10\<rparr>,
        \<lparr>pickedId = - 3, pickedOrder = 12\<rparr>]) = 5 - 3"
proof -
  have s: "pickedOfType exampleAbilities SpellSlot
       [\<lparr>pickedId = 7, pickedOrder = 1\<rparr>, \<lparr>pickedId = 9, pickedOrder = 10\<rparr>,
        \<lparr>pickedId = - 3, pickedOrder = 12\<rparr>] = 1"
    by (simp add: pickedOfType_def slotTypeOf_def exampleAbilities_def)
  have u: "pickedOfType exampleAbilities UltimateSlot
       [\<lparr>pickedId = 7, pickedOrder = 1\<rparr>, \<lparr>pickedId = 9, pickedOrder = 10\<rparr>,
        \<lparr>pickedId = - 3, pickedOrder = 12\<rparr>] = 1"
    by (simp add: pickedOfType_def slotTypeOf_def exampleAbilities_def)
  have h: "pickedOfType exampleAbilities HeroInnateSlot
       [\<lparr>pickedId = 7, pickedOrder = 1\<rparr>, \<lparr>pickedId = 9, pickedOrder = 10\<rparr>,
        \<lparr>pickedId = - 3, pickedOrder = 12\<rparr>] = 1"
    by (simp add: pickedOfType_def slotTypeOf_def exampleAbilities_def)
  have r: "remainingTypes exampleAbilities
       [\<lparr>pickedId = 7, pickedOrder = 1\<rparr>, \<lparr>pickedId = 9, pickedOrder = 10\<rparr>,
        \<lparr>pickedId = - 3, pickedOrder = 12\<rparr>]
     = \<lparr>spells = 2, ultimates = 0, heroes = 0\<rparr>"
    by code_simp
  from s u h r remainingTypes_sum [of exampleAbilities
       "[\<lparr>pickedId = 7, pickedOrder = 1\<rparr>, \<lparr>pickedId = 9, pickedOrder = 10\<rparr>,
        \<lparr>pickedId = - 3, pickedOrder = 12\<rparr>]"]
  show ?thesis by simp
qed

subsection \<open>Log-weighted synergy of one player\<close>

lemma qualifying_weight_pos:
  "sn \<in> set (qualifying pairs wr ab) \<Longrightarrow> 0 < ln (real_of_int (snd sn))"
  by (auto simp: qualifying_def split: option.splits if_splits)

lemma qualifyingPairs_weight_pos:
  "sn \<in> set (qualifyingPairs pairs wr xs) \<Longrightarrow> 0 < ln (real_of_int (snd sn))"
  by (auto simp: qualifyingPairs_def dest: qualifying_weight_pos)

lemma sum_weights_pos:
  assumes "q \<noteq> []" and "\<And>sn. sn \<in> set q \<Longrightarrow> 0 < ln (real_of_int (snd sn))"
  shows "0 < (\<Sum>sn\<leftarrow>q. ln (real_of_int (snd sn)))"
  using assms
proof (induction q)
  case Nil
  then show ?case by simp
next
  case (Cons x q)
  have x: "0 < ln (real_of_int (snd x))" using Cons.prems(2) by simp
  have rest: "0 \<le> (\<Sum>sn\<leftarrow>q. ln (real_of_int (snd sn)))"
  proof (cases "q = []")
    case True
    then show ?thesis by simp
  next
    case False
    then show ?thesis using Cons.IH Cons.prems(2) by (simp add: less_imp_le)
  qed
  from x rest show ?case by simp
qed

lemma pairKey_unordered: "pairKey a b = unorderedKey a b"
  by (simp add: pairKey_def unorderedKey_def min_def max_def)

lemma map_of_find: "map_of xs a = map_option snd (List.find (\<lambda>e. fst e = a) xs)"
  by (induction xs) auto

lemma winrateOrHalf_independent: "winrateOrHalf wr a = independentWinrate wr a"
  by (cases "map_of wr a")
     (simp_all add: winrateOrHalf_def independentWinrate_def recordedWinrate_def
        map_of_find [symmetric])

lemma addPair_sums:
  "addPair pairs wr a acc b =
     \<lparr>totalWeight = totalWeight acc
        + (\<Sum>sn\<leftarrow>qualifying pairs wr (a, b). ln (real_of_int (snd sn))),
      weightedSum = weightedSum acc
        + (\<Sum>sn\<leftarrow>qualifying pairs wr (a, b). fst sn * ln (real_of_int (snd sn)))\<rparr>"
  by (simp add: addPair_def qualifying_def synergyOf_def Let_def pairKey_unordered
      winrateOrHalf_independent split: option.splits)

lemma foldl_addPair_sums:
  "foldl (addPair pairs wr a) acc rest =
     \<lparr>totalWeight = totalWeight acc
        + (\<Sum>sn\<leftarrow>concat (map (qualifying pairs wr) (map (Pair a) rest)).
             ln (real_of_int (snd sn))),
      weightedSum = weightedSum acc
        + (\<Sum>sn\<leftarrow>concat (map (qualifying pairs wr) (map (Pair a) rest)).
             fst sn * ln (real_of_int (snd sn)))\<rparr>"
proof (induction rest arbitrary: acc)
  case Nil
  show ?case by simp
next
  case (Cons b rest)
  have "foldl (addPair pairs wr a) acc (b # rest) =
      foldl (addPair pairs wr a) (addPair pairs wr a acc b) rest"
    by simp
  also have "\<dots> =
     \<lparr>totalWeight = totalWeight (addPair pairs wr a acc b)
        + (\<Sum>sn\<leftarrow>concat (map (qualifying pairs wr) (map (Pair a) rest)).
             ln (real_of_int (snd sn))),
      weightedSum = weightedSum (addPair pairs wr a acc b)
        + (\<Sum>sn\<leftarrow>concat (map (qualifying pairs wr) (map (Pair a) rest)).
             fst sn * ln (real_of_int (snd sn)))\<rparr>"
    by (rule Cons.IH)
  also have "\<dots> =
     \<lparr>totalWeight = totalWeight acc
        + (\<Sum>sn\<leftarrow>concat (map (qualifying pairs wr) (map (Pair a) (b # rest))).
             ln (real_of_int (snd sn))),
      weightedSum = weightedSum acc
        + (\<Sum>sn\<leftarrow>concat (map (qualifying pairs wr) (map (Pair a) (b # rest))).
             fst sn * ln (real_of_int (snd sn)))\<rparr>"
    by (simp add: addPair_sums [of pairs wr a acc b] add.assoc)
  finally show ?case .
qed

lemma pairLoop_sums:
  "pairLoop pairs wr xs acc =
     \<lparr>totalWeight = totalWeight acc
        + (\<Sum>sn\<leftarrow>qualifyingPairs pairs wr xs. ln (real_of_int (snd sn))),
      weightedSum = weightedSum acc
        + (\<Sum>sn\<leftarrow>qualifyingPairs pairs wr xs. fst sn * ln (real_of_int (snd sn)))\<rparr>"
proof (induction xs arbitrary: acc)
  case Nil
  show ?case by (simp add: qualifyingPairs_def)
next
  case (Cons a rest)
  have step: "qualifyingPairs pairs wr (a # rest) =
      concat (map (qualifying pairs wr) (map (Pair a) rest)) @ qualifyingPairs pairs wr rest"
    by (simp add: qualifyingPairs_def)
  have "pairLoop pairs wr (a # rest) acc =
      pairLoop pairs wr rest (foldl (addPair pairs wr a) acc rest)"
    by simp
  also have "\<dots> =
     \<lparr>totalWeight = totalWeight (foldl (addPair pairs wr a) acc rest)
        + (\<Sum>sn\<leftarrow>qualifyingPairs pairs wr rest. ln (real_of_int (snd sn))),
      weightedSum = weightedSum (foldl (addPair pairs wr a) acc rest)
        + (\<Sum>sn\<leftarrow>qualifyingPairs pairs wr rest. fst sn * ln (real_of_int (snd sn)))\<rparr>"
    by (rule Cons.IH)
  also have "\<dots> =
     \<lparr>totalWeight = totalWeight acc
        + (\<Sum>sn\<leftarrow>qualifyingPairs pairs wr (a # rest). ln (real_of_int (snd sn))),
      weightedSum = weightedSum acc
        + (\<Sum>sn\<leftarrow>qualifyingPairs pairs wr (a # rest).
             fst sn * ln (real_of_int (snd sn)))\<rparr>"
    unfolding step foldl_addPair_sums [of pairs wr a acc rest] by (simp add: add.assoc)
  finally show ?case .
qed

lemma calculateAbilitySynergy_mean:
  "calculateAbilitySynergy ids pairs wr =
     logWeightedMean (qualifyingPairs pairs wr (filter (\<lambda>i. 0 < i) ids))"
proof -
  define q where "q = qualifyingPairs pairs wr (filter (\<lambda>i. 0 < i) ids)"
  have acc: "pairLoop pairs wr (filter (\<lambda>i. 0 < i) ids)
        \<lparr>totalWeight = 0, weightedSum = 0\<rparr> =
      \<lparr>totalWeight = (\<Sum>sn\<leftarrow>q. ln (real_of_int (snd sn))),
       weightedSum = (\<Sum>sn\<leftarrow>q. fst sn * ln (real_of_int (snd sn)))\<rparr>"
    by (simp add: pairLoop_sums q_def)
  show ?thesis
  proof (cases "q = []")
    case True
    then show ?thesis
      unfolding calculateAbilitySynergy_def Let_def acc logWeightedMean_def q_def [symmetric]
      by simp
  next
    case False
    have "0 < (\<Sum>sn\<leftarrow>q. ln (real_of_int (snd sn)))"
      using False qualifyingPairs_weight_pos sum_weights_pos unfolding q_def by blast
    then show ?thesis
      unfolding calculateAbilitySynergy_def Let_def acc logWeightedMean_def q_def [symmetric]
      using False by simp
  qed
qed

lemmas key_eval = pairKey_def showInt_def showNat.simps digitChars_def

lemmas parse_eval = parseKey_def parseInt_def isWhiteSpace_def isDigit_def digitValue_def
  digitsValue_def digitChars_def

lemma ln_100: "ln (100::real) = 2 * ln 10"
  using ln_realpow [of 10 2] by simp

lemmas spec_eval = unorderedKey_def showInt_def showNat.simps digitChars_def
  independentWinrate_def recordedWinrate_def

text \<open>
  C5, as amended. calculateAbilitySynergy is the log-weighted mean
  sum(synergy * ln numPicks) / sum(ln numPicks) over the pairs of the player's drafted
  abilities, the positive identifiers of the list, whose statistic has numPicks of at
  least 10, with synergy = pair win rate - (wrA + wrB) / 2 and 0.5 for an unknown win
  rate; it is unknown (null) exactly when no such pair qualifies. For abilities 1, 2, 3
  with recorded win rates 0.54 for ability 1 and 0.58 for ability 3, and the two pairs
  1-2 (numPicks 100, win rate 0.57, synergy +0.05) and 1-3 (numPicks 10, win rate 0.46,
  synergy -0.10), the result lies strictly between -0.10 and +0.05 and is closer to
  +0.05.
\<close>

theorem calculateAbilitySynergy_log_weighted:
  "calculateAbilitySynergy ids pairs wr
     = logWeightedMean (qualifyingPairs pairs wr (filter (\<lambda>i. 0 < i) ids))
   \<and> ((calculateAbilitySynergy ids pairs wr = None)
        = (qualifyingPairs pairs wr (filter (\<lambda>i. 0 < i) ids) = []))
   \<and> qualifyingPairs [(''1-2'', \<lparr>winrate = 57 / 100, numPicks = 100\<rparr>),
          (''1-3'', \<lparr>winrate = 46 / 100, numPicks = 10\<rparr>)]
          [(1, 54 / 100), (3, 58 / 100)] [1, 2, 3]
        = [(5 / 100, 100), (- 10 / 100, 10)]
   \<and> (\<exists>r. calculateAbilitySynergy [1, 2, 3]
          [(''1-2'', \<lparr>winrate = 57 / 100, numPicks = 100\<rparr>),
           (''1-3'', \<lparr>winrate = 46 / 100, numPicks = 10\<rparr>)]
          [(1, 54 / 100), (3, 58 / 100)] = Some r
        \<and> - 10 / 100 < r \<and> r < 5 / 100 \<and> \<bar>r - 5 / 100\<bar> < \<bar>r - (- 10 / 100)\<bar>)"
proof -
  have mean: "calculateAbilitySynergy ids pairs wr
     = logWeightedMean (qualifyingPairs pairs wr (filter (\<lambda>i. 0 < i) ids))"
    by (rule calculateAbilitySynergy_mean)
  have null: "(calculateAbilitySynergy ids pairs wr = None)
        = (qualifyingPairs pairs wr (filter (\<lambda>i. 0 < i) ids) = [])"
    unfolding mean by (simp add: logWeightedMean_def)
  have q: "qualifyingPairs [(''1-2'', \<lparr>winrate = 57 / 100, numPicks = 100\<rparr>),
          (''1-3'', \<lparr>winrate = 46 / 100, numPicks = 10\<rparr>)]
          [(1, 54 / 100), (3, 58 / 100)] [1, 2, 3]
        = [(5 / 100, 100), (- 10 / 100, 10)]"
    by (simp add: qualifyingPairs_def qualifying_def spec_eval)
  have "calculateAbilitySynergy [1, 2, 3]
          [(''1-2'', \<lparr>winrate = 57 / 100, numPicks = 100\<rparr>),
           (''1-3'', \<lparr>winrate = 46 / 100, numPicks = 10\<rparr>)]
          [(1, 54 / 100), (3, 58 / 100)] = Some 0"
    unfolding calculateAbilitySynergy_mean
    using q by (simp add: logWeightedMean_def ln_100)
  then have ex: "\<exists>r. calculateAbilitySynergy [1, 2, 3]
          [(''1-2'', \<lparr>winrate = 57 / 100, numPicks = 100\<rparr>),
           (''1-3'', \<lparr>winrate = 46 / 100, numPicks = 10\<rparr>)]
          [(1, 54 / 100), (3, 58 / 100)] = Some r
        \<and> - 10 / 100 < r \<and> r < 5 / 100 \<and> \<bar>r - 5 / 100\<bar> < \<bar>r - (- 10 / 100)\<bar>"
    by simp
  from mean null q ex show ?thesis by blast
qed

text \<open>
  C5, as stated, fails: the mean over the pairs of all the player's abilities counts a
  pair with a hero innate, and the code does not. A player with the hero innate -5 and
  the ability 100, whose pair has 50 picks and a win rate of 0.9, has one qualifying
  pair of synergy +0.4, so the mean of the claim is +0.4; the code returns unknown.
\<close>

theorem calculateAbilitySynergy_not_over_all_abilities:
  "logWeightedMean (qualifyingPairs [(''-5-100'', \<lparr>winrate = 9 / 10, numPicks = 50\<rparr>)] []
       [- 5, 100]) = Some (4 / 10)
   \<and> calculateAbilitySynergy [- 5, 100]
        [(''-5-100'', \<lparr>winrate = 9 / 10, numPicks = 50\<rparr>)] [] = None
   \<and> calculateAbilitySynergy [- 5, 100]
        [(''-5-100'', \<lparr>winrate = 9 / 10, numPicks = 50\<rparr>)] []
     \<noteq> logWeightedMean (qualifyingPairs [(''-5-100'', \<lparr>winrate = 9 / 10, numPicks = 50\<rparr>)] []
         [- 5, 100])"
proof -
  have q: "qualifyingPairs [(''-5-100'', \<lparr>winrate = 9 / 10, numPicks = 50\<rparr>)] [] [- 5, 100]
      = [(4 / 10, 50)]"
    by (simp add: qualifyingPairs_def qualifying_def spec_eval)
  have "ln (50::real) \<noteq> 0" by simp
  then have a: "logWeightedMean (qualifyingPairs
       [(''-5-100'', \<lparr>winrate = 9 / 10, numPicks = 50\<rparr>)] [] [- 5, 100]) = Some (4 / 10)"
    unfolding q by (simp add: logWeightedMean_def)
  have b: "calculateAbilitySynergy [- 5, 100]
        [(''-5-100'', \<lparr>winrate = 9 / 10, numPicks = 50\<rparr>)] [] = None"
    by (simp add: calculateAbilitySynergy_def)
  from a b show ?thesis by simp
qed

text \<open>
  C10. calculateAbilitySynergy looks only at the positive identifiers of its input:
  removing every negative (hero innate) entry leaves the result unchanged, and so does
  keeping only the positive entries. A hero innate contributes no pair even when the
  statistics hold one for it: the list [-5, 100] with a statistic for the key "-5-100"
  of 50 picks gives unknown.
\<close>

theorem calculateAbilitySynergy_positive_only:
  "calculateAbilitySynergy (filter (\<lambda>i. \<not> i < 0) ids) pairs wr
     = calculateAbilitySynergy ids pairs wr
   \<and> calculateAbilitySynergy (filter (\<lambda>i. 0 < i) ids) pairs wr
     = calculateAbilitySynergy ids pairs wr
   \<and> pairKey (- 5) 100 = ''-5-100''
   \<and> calculateAbilitySynergy [- 5, 100]
        [(''-5-100'', \<lparr>winrate = 9 / 10, numPicks = 50\<rparr>)] [] = None"
proof -
  have f1: "filter (\<lambda>i. 0 < i) (filter (\<lambda>i. \<not> i < 0) ids) = filter (\<lambda>i. 0 < i) ids"
    by (induction ids) auto
  have f2: "filter (\<lambda>i. 0 < i) (filter (\<lambda>i. 0 < i) ids) = filter (\<lambda>i::int. 0 < i) ids"
    by simp
  have a: "calculateAbilitySynergy (filter (\<lambda>i. \<not> i < 0) ids) pairs wr
     = calculateAbilitySynergy ids pairs wr"
    unfolding calculateAbilitySynergy_def f1 by (rule refl)
  have b: "calculateAbilitySynergy (filter (\<lambda>i. 0 < i) ids) pairs wr
     = calculateAbilitySynergy ids pairs wr"
    unfolding calculateAbilitySynergy_def f2 by (rule refl)
  have c: "pairKey (- 5) 100 = ''-5-100''"
    by (simp add: key_eval)
  have d: "calculateAbilitySynergy [- 5, 100]
        [(''-5-100'', \<lparr>winrate = 9 / 10, numPicks = 50\<rparr>)] [] = None"
    by (simp add: calculateAbilitySynergy_def)
  from a b c d show ?thesis by blast
qed

subsection \<open>Ownership repair\<close>
























subsection \<open>Assignment of picks to players\<close>

lemma foldl_upd_apply:
  "foldl (\<lambda>m' a. m'(a \<mapsto> v)) m as x = (if x \<in> set as then Some v else m x)"
  by (induction as arbitrary: m) auto

lemma assignAbilities_apply:
  "assignAbilities sd m ip x =
     (if x \<in> set (abilities (snd ip)) then Some \<lparr>playerIndex = fst ip, side = sd\<rparr> else m x)"
  by (simp add: assignAbilities_def foldl_upd_apply)

lemma assign_snoc:
  "foldl (assignAbilities sd) m (enumerate n (ps @ [p])) =
     assignAbilities sd (foldl (assignAbilities sd) m (enumerate n ps)) (n + length ps, p)"
  by (simp add: enumerate_append_eq)

lemma assign_snoc_apply:
  "foldl (assignAbilities sd) m (enumerate n (ps @ [p])) x =
     (if x \<in> set (abilities p) then Some \<lparr>playerIndex = n + length ps, side = sd\<rparr>
      else foldl (assignAbilities sd) m (enumerate n ps) x)"
  by (subst assign_snoc, subst assignAbilities_apply) simp

lemma assign_owner:
  assumes "i < length ps" and "x \<in> set (abilities (ps ! i))"
    and "\<And>j. j < length ps \<Longrightarrow> j \<noteq> i \<Longrightarrow> x \<notin> set (abilities (ps ! j))"
  shows "foldl (assignAbilities sd) m (enumerate n ps) x = Some \<lparr>playerIndex = n + i, side = sd\<rparr>"
  using assms
proof (induction ps rule: rev_induct)
  case Nil
  then show ?case by simp
next
  case (snoc p ps)
  show ?case
  proof (cases "i = length ps")
    case True
    with snoc.prems(2) show ?thesis
      by (simp add: assign_snoc_apply)
  next
    case False
    with snoc.prems(1) have i: "i < length ps" by simp
    have notp: "x \<notin> set (abilities p)"
      using snoc.prems(3) [of "length ps"] False by simp
    have xi: "x \<in> set (abilities (ps ! i))"
      using snoc.prems(2) i by (simp add: nth_append)
    have others: "\<And>j. j < length ps \<Longrightarrow> j \<noteq> i \<Longrightarrow> x \<notin> set (abilities (ps ! j))"
      using snoc.prems(3) by (metis length_append_singleton less_Suc_eq nth_append)
    from snoc.IH [OF i xi others] notp show ?thesis
      by (simp add: assign_snoc_apply)
  qed
qed

lemma assign_other:
  assumes "\<And>j. j < length ps \<Longrightarrow> x \<notin> set (abilities (ps ! j))"
  shows "foldl (assignAbilities sd) m (enumerate n ps) x = m x"
  using assms
proof (induction ps rule: rev_induct)
  case Nil
  then show ?case by simp
next
  case (snoc p ps)
  have notp: "x \<notin> set (abilities p)"
    using snoc.prems [of "length ps"] by simp
  have others: "\<And>j. j < length ps \<Longrightarrow> x \<notin> set (abilities (ps ! j))"
    using snoc.prems by (metis length_append_singleton less_Suc_eq nth_append)
  from snoc.IH [OF others] notp show ?case
    by (simp add: assign_snoc_apply)
qed

lemma assign_result:
  assumes "foldl (assignAbilities sd) m (enumerate n ps) x = Some v"
  shows "m x = Some v
     \<or> (\<exists>i<length ps. v = \<lparr>playerIndex = n + i, side = sd\<rparr> \<and> x \<in> set (abilities (ps ! i)))"
  using assms
proof (induction ps rule: rev_induct)
  case Nil
  then show ?case by simp
next
  case (snoc p ps)
  show ?case
  proof (cases "x \<in> set (abilities p)")
    case True
    with snoc.prems have "v = \<lparr>playerIndex = n + length ps, side = sd\<rparr>"
      by (simp add: assign_snoc_apply)
    with True show ?thesis by auto
  next
    case False
    with snoc.prems have "foldl (assignAbilities sd) m (enumerate n ps) x = Some v"
      by (simp add: assign_snoc_apply)
    from snoc.IH [OF this] show ?thesis
      by (auto simp: nth_append less_Suc_eq)
  qed
qed

lemma entriesFor_Cons:
  "entriesFor m sd i (pk # pks) = entriesFor m sd i [pk] @ entriesFor m sd i pks"
  by (simp add: entriesFor_def)

lemma entriesFor_Nil: "entriesFor m sd i [] = []"
  by (simp add: entriesFor_def)

lemma pushPick_ok:
  assumes r: "length (radiantPicked st) = 5" and d: "length (direPicked st) = 5"
    and m: "\<forall>x a. m x = Some a \<longrightarrow> playerIndex a < 5"
  shows "\<exists>st'. pushPick m st pk = Inr st'
     \<and> length (radiantPicked st') = 5 \<and> length (direPicked st') = 5
     \<and> (\<forall>i<5. radiantPicked st' ! i = radiantPicked st ! i @ entriesFor m Radiant i [pk]
              \<and> direPicked st' ! i = direPicked st ! i @ entriesFor m Dire i [pk])"
proof (cases "m (abilityId pk)")
  case None
  then show ?thesis using r d by (simp add: pushPick_def entriesFor_def)
next
  case (Some a)
  have k: "playerIndex a < 5" using m Some by blast
  have a: "a = \<lparr>playerIndex = playerIndex a, side = side a\<rparr>" by simp
  show ?thesis
  proof (cases "side a")
    case Radiant
    have eq: "\<And>i. (a = \<lparr>playerIndex = i, side = Radiant\<rparr>) = (i = playerIndex a)"
      using Radiant by (cases a) auto
    have ne: "\<And>i. a \<noteq> \<lparr>playerIndex = i, side = Dire\<rparr>"
      using Radiant by (cases a) auto
    show ?thesis using Some Radiant k r d
      by (auto simp: pushPick_def Let_def entriesFor_def eq ne nth_list_update)
  next
    case Dire
    have eq: "\<And>i. (a = \<lparr>playerIndex = i, side = Dire\<rparr>) = (i = playerIndex a)"
      using Dire by (cases a) auto
    have ne: "\<And>i. a \<noteq> \<lparr>playerIndex = i, side = Radiant\<rparr>"
      using Dire by (cases a) auto
    show ?thesis using Some Dire k r d
      by (auto simp: pushPick_def Let_def entriesFor_def eq ne nth_list_update)
  qed
qed

lemma pushPicks_ok:
  assumes r: "length (radiantPicked st) = 5" and d: "length (direPicked st) = 5"
    and m: "\<forall>x a. m x = Some a \<longrightarrow> playerIndex a < 5"
  shows "\<exists>st'. pushPicks m st pks = Inr st'
     \<and> length (radiantPicked st') = 5 \<and> length (direPicked st') = 5
     \<and> (\<forall>i<5. radiantPicked st' ! i = radiantPicked st ! i @ entriesFor m Radiant i pks
              \<and> direPicked st' ! i = direPicked st ! i @ entriesFor m Dire i pks)"
  using r d
proof (induction pks arbitrary: st)
  case Nil
  then show ?case by (simp add: entriesFor_Nil)
next
  case (Cons pk pks)
  from pushPick_ok [OF Cons.prems m, of pk] obtain st1 where
    s1: "pushPick m st pk = Inr st1"
    and r1: "length (radiantPicked st1) = 5" and d1: "length (direPicked st1) = 5"
    and e1: "\<forall>i<5. radiantPicked st1 ! i = radiantPicked st ! i @ entriesFor m Radiant i [pk]
              \<and> direPicked st1 ! i = direPicked st ! i @ entriesFor m Dire i [pk]"
    by blast
  from Cons.IH [OF r1 d1] obtain st2 where
    s2: "pushPicks m st1 pks = Inr st2"
    and r2: "length (radiantPicked st2) = 5" and d2: "length (direPicked st2) = 5"
    and e2: "\<forall>i<5. radiantPicked st2 ! i = radiantPicked st1 ! i @ entriesFor m Radiant i pks
              \<and> direPicked st2 ! i = direPicked st1 ! i @ entriesFor m Dire i pks"
    by blast
  have "pushPicks m st (pk # pks) = Inr st2" using s1 s2 by simp
  moreover have "\<forall>i<5. radiantPicked st2 ! i = radiantPicked st ! i @ entriesFor m Radiant i (pk # pks)
              \<and> direPicked st2 ! i = direPicked st ! i @ entriesFor m Dire i (pk # pks)"
    using e1 e2 entriesFor_Cons [of m _ _ pk pks] by simp
  ultimately show ?case using r2 d2 by blast
qed


lemma distinct_concat_disjoint_less:
  "distinct (concat xss) \<Longrightarrow> i < j \<Longrightarrow> j < length xss \<Longrightarrow> set (xss ! i) \<inter> set (xss ! j) = {}"
proof (induction xss arbitrary: i j)
  case Nil
  then show ?case by simp
next
  case (Cons xs rest)
  from Cons.prems(1) have dr: "distinct (concat rest)"
    and dj: "set xs \<inter> set (concat rest) = {}" by auto
  show ?case
  proof (cases i)
    case 0
    with Cons.prems obtain j' where j': "j = Suc j'" "j' < length rest"
      by (cases j) auto
    then have "rest ! j' \<in> set rest" by simp
    then have "set (rest ! j') \<subseteq> set (concat rest)" by auto
    with dj 0 j' show ?thesis by auto
  next
    case (Suc i')
    with Cons.prems obtain j' where j': "j = Suc j'" "j' < length rest" "i' < j'"
      by (cases j) auto
    from Cons.IH [OF dr j'(3) j'(2)] Suc j' show ?thesis by simp
  qed
qed

lemma distinct_concat_disjoint:
  assumes "distinct (concat xss)" and "i < length xss" and "j < length xss" and "i \<noteq> j"
  shows "set (xss ! i) \<inter> set (xss ! j) = {}"
proof (cases "i < j")
  case True
  then show ?thesis using assms distinct_concat_disjoint_less by blast
next
  case False
  with assms have "j < i" by simp
  then have "set (xss ! j) \<inter> set (xss ! i) = {}"
    using assms distinct_concat_disjoint_less by blast
  then show ?thesis by blast
qed

lemma abilityToPlayer_index:
  assumes "abilityToPlayer r d x = Some a"
  shows "(side a = Radiant \<and> playerIndex a < length r \<and> x \<in> set (abilities (r ! playerIndex a)))
       \<or> (side a = Dire \<and> playerIndex a < length d \<and> x \<in> set (abilities (d ! playerIndex a)))"
proof -
  from assign_result [OF assms [unfolded abilityToPlayer_def]]
  consider (inner) "foldl (assignAbilities Radiant) Map.empty (enumerate 0 r) x = Some a"
    | (dire) i where "i < length d" "a = \<lparr>playerIndex = 0 + i, side = Dire\<rparr>"
        "x \<in> set (abilities (d ! i))"
    by blast
  then show ?thesis
  proof cases
    case inner
    from assign_result [OF inner] show ?thesis by auto
  next
    case dire
    then show ?thesis by simp
  qed
qed

lemma noShared_disjoint:
  assumes "noSharedAbility ps" and "i < length ps" and "j < length ps" and "i \<noteq> j"
  shows "set (map abilities ps ! i) \<inter> set (map abilities ps ! j) = {}"
  using assms by (simp add: noSharedAbility_def)

lemma distinct_noShared:
  assumes "distinct (concat (map abilities ps))"
  shows "noSharedAbility ps"
  unfolding noSharedAbility_def
proof (intro allI impI)
  fix i j assume "i < length ps" "j < length ps" "i \<noteq> j"
  then show "set (abilities (ps ! i)) \<inter> set (abilities (ps ! j)) = {}"
    using distinct_concat_disjoint [OF assms, of i j] by simp
qed

lemma abilityToPlayer_radiant:
  assumes "i < length r" and "x \<in> set (abilities (r ! i))"
    and "noSharedAbility (r @ d)"
  shows "abilityToPlayer r d x = Some \<lparr>playerIndex = i, side = Radiant\<rparr>"
proof -
  let ?xss = "map abilities (r @ d)"
  have len: "length ?xss = length r + length d" by simp
  have ri: "?xss ! i = abilities (r ! i)" using assms(1) by (simp add: nth_append)
  have others: "\<And>j. j < length r \<Longrightarrow> j \<noteq> i \<Longrightarrow> x \<notin> set (abilities (r ! j))"
  proof -
    fix j assume j: "j < length r" "j \<noteq> i"
    have "?xss ! j = abilities (r ! j)" using j by (simp add: nth_append)
    moreover have "set (?xss ! i) \<inter> set (?xss ! j) = {}"
      using noShared_disjoint [OF assms(3), of i j] assms(1) j by simp
    ultimately show "x \<notin> set (abilities (r ! j))" using assms(2) ri by auto
  qed
  have dires: "\<And>j. j < length d \<Longrightarrow> x \<notin> set (abilities (d ! j))"
  proof -
    fix j assume j: "j < length d"
    have "?xss ! (length r + j) = abilities (d ! j)" using j by (simp add: nth_append)
    moreover have "set (?xss ! i) \<inter> set (?xss ! (length r + j)) = {}"
      using noShared_disjoint [OF assms(3), of i "length r + j"] assms(1) j by simp
    ultimately show "x \<notin> set (abilities (d ! j))" using assms(2) ri by auto
  qed
  have "abilityToPlayer r d x = foldl (assignAbilities Radiant) Map.empty (enumerate 0 r) x"
    unfolding abilityToPlayer_def using dires by (rule assign_other)
  also have "\<dots> = Some \<lparr>playerIndex = 0 + i, side = Radiant\<rparr>"
    using assms(1,2) others by (rule assign_owner)
  finally show ?thesis by simp
qed

lemma abilityToPlayer_dire:
  assumes "i < length d" and "x \<in> set (abilities (d ! i))"
    and "noSharedAbility (r @ d)"
  shows "abilityToPlayer r d x = Some \<lparr>playerIndex = i, side = Dire\<rparr>"
proof -
  let ?xss = "map abilities (r @ d)"
  have di: "?xss ! (length r + i) = abilities (d ! i)" using assms(1) by (simp add: nth_append)
  have others: "\<And>j. j < length d \<Longrightarrow> j \<noteq> i \<Longrightarrow> x \<notin> set (abilities (d ! j))"
  proof -
    fix j assume j: "j < length d" "j \<noteq> i"
    have "?xss ! (length r + j) = abilities (d ! j)" using j by (simp add: nth_append)
    moreover have "set (?xss ! (length r + i)) \<inter> set (?xss ! (length r + j)) = {}"
      using noShared_disjoint [OF assms(3), of "length r + i" "length r + j"] assms(1) j
      by simp
    ultimately show "x \<notin> set (abilities (d ! j))" using assms(2) di by auto
  qed
  have "abilityToPlayer r d x = Some \<lparr>playerIndex = 0 + i, side = Dire\<rparr>"
    unfolding abilityToPlayer_def using assms(1,2) others by (rule assign_owner)
  then show ?thesis by simp
qed

lemma set_entriesFor:
  "set (map pickedId (entriesFor m sd i pks))
     = {x \<in> set (map abilityId pks). m x = Some \<lparr>playerIndex = i, side = sd\<rparr>}"
  by (auto simp: entriesFor_def)

lemma playerPickedAbilities_steps_noShared:
  assumes lr: "length radiantPlayers = 5" and ld: "length direPlayers = 5"
    and dist: "noSharedAbility (radiantPlayers @ direPlayers)"
    and once: "\<forall>a \<in> set (concat (map abilities (radiantPlayers @ direPlayers))).
                 count_list (map abilityId picks) a = 1"
  shows "playerPickedAbilities picks 0 (abilityToPlayer radiantPlayers direPlayers)
       = Inr \<lparr>radiantPicked = replicate 5 [], direPicked = replicate 5 []\<rparr>
     \<and> (\<exists>st. playerPickedAbilities picks (length picks)
                (abilityToPlayer radiantPlayers direPlayers) = Inr st
           \<and> length (radiantPicked st) = 5 \<and> length (direPicked st) = 5
           \<and> (\<forall>i<5. set (map pickedId (radiantPicked st ! i))
                       = set (abilities (radiantPlayers ! i))
                   \<and> set (map pickedId (direPicked st ! i))
                       = set (abilities (direPlayers ! i))))"
proof -
  let ?m = "abilityToPlayer radiantPlayers direPlayers"
  let ?st0 = "\<lparr>radiantPicked = replicate 5 [], direPicked = replicate 5 []\<rparr>"
  have zero: "playerPickedAbilities picks 0 ?m = Inr ?st0"
    by (simp add: playerPickedAbilities_def)
  have idx: "\<forall>x a. ?m x = Some a \<longrightarrow> playerIndex a < 5"
    using abilityToPlayer_index [of radiantPlayers direPlayers] lr ld by fastforce
  from pushPicks_ok [of ?st0 ?m picks] idx obtain st where
    st: "pushPicks ?m ?st0 picks = Inr st"
    and r5: "length (radiantPicked st) = 5" and d5: "length (direPicked st) = 5"
    and es: "\<forall>i<5. radiantPicked st ! i = radiantPicked ?st0 ! i @ entriesFor ?m Radiant i picks
              \<and> direPicked st ! i = direPicked ?st0 ! i @ entriesFor ?m Dire i picks"
    by auto
  have picked: "\<And>a. a \<in> set (concat (map abilities (radiantPlayers @ direPlayers)))
      \<Longrightarrow> a \<in> set (map abilityId picks)"
  proof -
    fix a assume "a \<in> set (concat (map abilities (radiantPlayers @ direPlayers)))"
    with once have "count_list (map abilityId picks) a = 1" by blast
    then show "a \<in> set (map abilityId picks)"
      using count_list_0_iff [of "map abilityId picks" a] by simp
  qed
  have sets: "\<forall>i<5. set (map pickedId (radiantPicked st ! i)) = set (abilities (radiantPlayers ! i))
                   \<and> set (map pickedId (direPicked st ! i)) = set (abilities (direPlayers ! i))"
  proof (intro allI impI conjI)
    fix i :: nat assume i: "i < 5"
    have "radiantPicked st ! i = entriesFor ?m Radiant i picks" using es i by simp
    then have "set (map pickedId (radiantPicked st ! i))
        = {x \<in> set (map abilityId picks). ?m x = Some \<lparr>playerIndex = i, side = Radiant\<rparr>}"
      by (simp only: set_entriesFor)
    also have "\<dots> = set (abilities (radiantPlayers ! i))"
    proof (intro set_eqI iffI)
      fix x assume "x \<in> {x \<in> set (map abilityId picks). ?m x = Some \<lparr>playerIndex = i, side = Radiant\<rparr>}"
      then have "?m x = Some \<lparr>playerIndex = i, side = Radiant\<rparr>" by simp
      from abilityToPlayer_index [OF this] show "x \<in> set (abilities (radiantPlayers ! i))" by simp
    next
      fix x assume x: "x \<in> set (abilities (radiantPlayers ! i))"
      have "x \<in> set (concat (map abilities (radiantPlayers @ direPlayers)))"
        using x i lr by auto
      then have "x \<in> set (map abilityId picks)" by (rule picked)
      moreover have "?m x = Some \<lparr>playerIndex = i, side = Radiant\<rparr>"
        using abilityToPlayer_radiant [OF _ x dist] i lr by simp
      ultimately show "x \<in> {x \<in> set (map abilityId picks). ?m x = Some \<lparr>playerIndex = i, side = Radiant\<rparr>}"
        by simp
    qed
    finally show "set (map pickedId (radiantPicked st ! i)) = set (abilities (radiantPlayers ! i))" .
  next
    fix i :: nat assume i: "i < 5"
    have "direPicked st ! i = entriesFor ?m Dire i picks" using es i by simp
    then have "set (map pickedId (direPicked st ! i))
        = {x \<in> set (map abilityId picks). ?m x = Some \<lparr>playerIndex = i, side = Dire\<rparr>}"
      by (simp only: set_entriesFor)
    also have "\<dots> = set (abilities (direPlayers ! i))"
    proof (intro set_eqI iffI)
      fix x assume "x \<in> {x \<in> set (map abilityId picks). ?m x = Some \<lparr>playerIndex = i, side = Dire\<rparr>}"
      then have "?m x = Some \<lparr>playerIndex = i, side = Dire\<rparr>" by simp
      from abilityToPlayer_index [OF this] show "x \<in> set (abilities (direPlayers ! i))" by simp
    next
      fix x assume x: "x \<in> set (abilities (direPlayers ! i))"
      have "x \<in> set (concat (map abilities (radiantPlayers @ direPlayers)))"
        using x i ld by auto
      then have "x \<in> set (map abilityId picks)" by (rule picked)
      moreover have "?m x = Some \<lparr>playerIndex = i, side = Dire\<rparr>"
        using abilityToPlayer_dire [OF _ x dist] i ld by simp
      ultimately show "x \<in> {x \<in> set (map abilityId picks). ?m x = Some \<lparr>playerIndex = i, side = Dire\<rparr>}"
        by simp
    qed
    finally show "set (map pickedId (direPicked st ! i)) = set (abilities (direPlayers ! i))" .
  qed
  have last: "playerPickedAbilities picks (length picks) ?m = Inr st"
    using st by (simp add: playerPickedAbilities_def)
  from zero last r5 d5 sets show ?thesis by blast
qed


text \<open>
  C7, as amended. At step 0 every player has an empty list. At step N, the length of
  the pick list, the abilities assigned to each of the five players of either side are,
  as a set, the abilities of that player's final list, provided every final ability
  appears exactly once in the pick list and no ability is on the final lists of two
  different players.
\<close>

theorem playerPickedAbilities_first_and_last:
  assumes lr: "length radiantPlayers = 5" and ld: "length direPlayers = 5"
    and dist: "noSharedAbility (radiantPlayers @ direPlayers)"
    and once: "\<forall>a \<in> set (concat (map abilities (radiantPlayers @ direPlayers))).
                 count_list (map abilityId picks) a = 1"
  shows "playerPickedAbilities picks 0 (abilityToPlayer radiantPlayers direPlayers)
       = Inr \<lparr>radiantPicked = replicate 5 [], direPicked = replicate 5 []\<rparr>
     \<and> (\<exists>st. playerPickedAbilities picks (length picks)
                (abilityToPlayer radiantPlayers direPlayers) = Inr st
           \<and> length (radiantPicked st) = 5 \<and> length (direPicked st) = 5
           \<and> (\<forall>i<5. set (map pickedId (radiantPicked st ! i))
                       = set (abilities (radiantPlayers ! i))
                   \<and> set (map pickedId (direPicked st ! i))
                       = set (abilities (direPlayers ! i))))"
  using lr ld dist once by (rule playerPickedAbilities_steps_noShared)

theorem playerPickedAbilities_first_and_last_witness:
  "noSharedAbility (exampleRadiant @ exampleDire)
   \<and> list_all (\<lambda>a. count_list (map abilityId examplePicks) a = 1)
        (concat (map abilities (exampleRadiant @ exampleDire)))
   \<and> (\<exists>st. playerPickedAbilities examplePicks (length examplePicks)
              (abilityToPlayer exampleRadiant exampleDire) = Inr st
          \<and> set (map pickedId (radiantPicked st ! 0)) = {11, - 1}
          \<and> set (map pickedId (direPicked st ! 4)) = {20, - 10})"
proof -
  have lr: "length exampleRadiant = 5" by (simp add: exampleRadiant_def)
  have ld: "length exampleDire = 5" by (simp add: exampleDire_def)
  have "distinct (concat (map abilities (exampleRadiant @ exampleDire)))"
    by (simp add: exampleRadiant_def exampleDire_def playerOf_def)
  then have dist: "noSharedAbility (exampleRadiant @ exampleDire)"
    by (rule distinct_noShared)
  have once: "list_all (\<lambda>a. count_list (map abilityId examplePicks) a = 1)
        (concat (map abilities (exampleRadiant @ exampleDire)))"
    by (simp add: exampleRadiant_def exampleDire_def examplePicks_def playerOf_def)
  then have once': "\<forall>a \<in> set (concat (map abilities (exampleRadiant @ exampleDire))).
      count_list (map abilityId examplePicks) a = 1"
    by (simp only: list_all_iff)
  from playerPickedAbilities_first_and_last [OF lr ld dist once'] obtain st where
    st: "playerPickedAbilities examplePicks (length examplePicks)
           (abilityToPlayer exampleRadiant exampleDire) = Inr st"
    and sets: "\<forall>i<5. set (map pickedId (radiantPicked st ! i))
                       = set (abilities (exampleRadiant ! i))
                   \<and> set (map pickedId (direPicked st ! i))
                       = set (abilities (exampleDire ! i))"
    by blast
  from sets have "set (map pickedId (radiantPicked st ! 0)) = set (abilities (exampleRadiant ! 0))"
    by simp
  then have r0: "set (map pickedId (radiantPicked st ! 0)) = {11, - 1}"
    by (simp add: exampleRadiant_def playerOf_def)
  from sets have "set (map pickedId (direPicked st ! 4)) = set (abilities (exampleDire ! 4))"
    by simp
  then have d4: "set (map pickedId (direPicked st ! 4)) = {20, - 10}"
    by (simp add: exampleDire_def playerOf_def)
  from dist once st r0 d4 show ?thesis by blast
qed

text \<open>
  C7, as stated, fails when two players share an ability. Ability 50 is on the final
  lists of the first two Radiant players and is picked once, so every final ability
  appears exactly once in the pick list; the assignment map keeps the second player as
  its owner, and at the last step the first player holds 51 only, not 50 and 51.
\<close>

theorem playerPickedAbilities_shared_ability:
  "length sharedRadiant = 5 \<and> length sharedDire = 5
   \<and> list_all (\<lambda>a. count_list (map abilityId sharedPicks) a = 1)
        (concat (map abilities (sharedRadiant @ sharedDire)))
   \<and> abilities (sharedRadiant ! 0) = [50, 51]
   \<and> (case playerPickedAbilities sharedPicks (length sharedPicks)
              (abilityToPlayer sharedRadiant sharedDire) of
         Inl e \<Rightarrow> []
       | Inr st \<Rightarrow> map (map pickedId) (radiantPicked st))
      = [[51], [50, 52], [53], [54], [55]]
   \<and> \<not> (\<exists>st. playerPickedAbilities sharedPicks (length sharedPicks)
              (abilityToPlayer sharedRadiant sharedDire) = Inr st
          \<and> set (map pickedId (radiantPicked st ! 0)) = set (abilities (sharedRadiant ! 0)))"
proof -
  have l: "length sharedRadiant = 5 \<and> length sharedDire = 5"
    by (simp add: sharedRadiant_def sharedDire_def)
  have once: "list_all (\<lambda>a. count_list (map abilityId sharedPicks) a = 1)
        (concat (map abilities (sharedRadiant @ sharedDire)))"
    by (simp add: sharedRadiant_def sharedDire_def sharedPicks_def playerOf_def)
  have fin: "abilities (sharedRadiant ! 0) = [50, 51]"
    by (simp add: sharedRadiant_def playerOf_def)
  have run: "(case playerPickedAbilities sharedPicks (length sharedPicks)
              (abilityToPlayer sharedRadiant sharedDire) of
         Inl e \<Rightarrow> []
       | Inr st \<Rightarrow> map (map pickedId) (radiantPicked st))
      = [[51], [50, 52], [53], [54], [55]]"
    by code_simp
  have no: "\<not> (\<exists>st. playerPickedAbilities sharedPicks (length sharedPicks)
              (abilityToPlayer sharedRadiant sharedDire) = Inr st
          \<and> set (map pickedId (radiantPicked st ! 0)) = set (abilities (sharedRadiant ! 0)))"
  proof
    assume "\<exists>st. playerPickedAbilities sharedPicks (length sharedPicks)
              (abilityToPlayer sharedRadiant sharedDire) = Inr st
          \<and> set (map pickedId (radiantPicked st ! 0)) = set (abilities (sharedRadiant ! 0))"
    then obtain st where st: "playerPickedAbilities sharedPicks (length sharedPicks)
              (abilityToPlayer sharedRadiant sharedDire) = Inr st"
      and eq: "set (map pickedId (radiantPicked st ! 0)) = set (abilities (sharedRadiant ! 0))"
      by blast
    from run st have m: "map (map pickedId) (radiantPicked st) = [[51], [50, 52], [53], [54], [55]]"
      by simp
    then have "length (radiantPicked st) = 5"
      using length_map [of "map pickedId" "radiantPicked st"] by simp
    then have "map pickedId (radiantPicked st ! 0) = map (map pickedId) (radiantPicked st) ! 0"
      by simp
    then have "map pickedId (radiantPicked st ! 0) = [51]" unfolding m by simp
    with eq fin show False by simp
  qed
  from l once fin run no show ?thesis by blast
qed

subsection \<open>Role analysis\<close>


















subsection \<open>Ranked lists and the sample-size floor\<close>

lemma availablePair_sound:
  assumes "e \<in> set (availablePair wr pool picked kp)"
  shows "10 \<le> pairNumPicks e
     \<and> parseKey (fst kp) = (Some (abilityA e), Some (abilityB e))
     \<and> numPicks (snd kp) = pairNumPicks e \<and> winrate (snd kp) = pairWinrate e"
  using assms
  by (cases "parseKey (fst kp)")
     (auto simp: availablePair_def Let_def hasNum_def split: if_splits option.splits)

lemma availablePairDiffHeroes_sound:
  assumes "e \<in> set (availablePairDiffHeroes t wr pool picked kp)"
  shows "10 \<le> pairNumPicks e
     \<and> parseKey (fst kp) = (Some (abilityA e), Some (abilityB e))
     \<and> numPicks (snd kp) = pairNumPicks e \<and> winrate (snd kp) = pairWinrate e"
  using assms
  by (cases "parseKey (fst kp)")
     (auto simp: availablePairDiffHeroes_def Let_def hasNum_def split: if_splits option.splits)

lemma bestAvailablePairs_sound:
  assumes "e \<in> set (bestAvailablePairs pairs wr pool picked)"
  shows "10 \<le> pairNumPicks e
     \<and> (\<exists>kp \<in> set pairs. parseKey (fst kp) = (Some (abilityA e), Some (abilityB e))
           \<and> numPicks (snd kp) = pairNumPicks e \<and> winrate (snd kp) = pairWinrate e)"
proof -
  from assms have "e \<in> set (concat (map (availablePair wr pool picked) pairs))"
    unfolding bestAvailablePairs_def by (auto dest: in_set_takeD)
  then obtain kp where "kp \<in> set pairs" "e \<in> set (availablePair wr pool picked kp)"
    by auto
  then show ?thesis using availablePair_sound by blast
qed

lemma bestAvailablePairsDiffHeroes_sound:
  assumes "e \<in> set (bestAvailablePairsDiffHeroes t pairs wr pool picked)"
  shows "10 \<le> pairNumPicks e
     \<and> (\<exists>kp \<in> set pairs. parseKey (fst kp) = (Some (abilityA e), Some (abilityB e))
           \<and> numPicks (snd kp) = pairNumPicks e \<and> winrate (snd kp) = pairWinrate e)"
proof -
  from assms have "e \<in> set (concat (map (availablePairDiffHeroes t wr pool picked) pairs))"
    unfolding bestAvailablePairsDiffHeroes_def by (auto dest: in_set_takeD)
  then obtain kp where "kp \<in> set pairs" "e \<in> set (availablePairDiffHeroes t wr pool picked kp)"
    by auto
  then show ?thesis using availablePairDiffHeroes_sound by blast
qed

lemma set_updateFirst:
  "set (updateFirst P f xs) \<subseteq> set xs \<union> f ` {x \<in> set xs. P x}"
  by (induction xs) auto

lemma ownedAndPool_Some:
  assumes "ownedAndPool owned picked pool ab = (Some ownedId, Some poolId)"
  shows "ownedId \<in> owned \<and> poolId \<in> pool \<and> poolId \<notin> picked
     \<and> (ab = (Some ownedId, Some poolId) \<or> ab = (Some poolId, Some ownedId))"
  using assms
  by (cases ab) (auto simp: ownedAndPool_def Let_def hasNum_def split: if_splits option.splits)

lemma synergyStep_cases:
  "synergyStep t wr owned picked pool rem syn kp = syn
   \<or> (\<exists>ownedId poolId.
        ownedAndPool owned picked pool (parseKey (fst kp)) = (Some ownedId, Some poolId)
        \<and> poolId \<noteq> 0 \<and> 10 \<le> numPicks (snd kp) \<and> typeNeeded t rem poolId
        \<and> (synergyStep t wr owned picked pool rem syn kp
              = syn @ [\<lparr>poolAbilityId = poolId, sugWinrate = winrate (snd kp),
                        sugSynergy = synergyOf wr ownedId poolId (winrate (snd kp))\<rparr>]
             \<and> List.find (\<lambda>e. poolAbilityId e = poolId) syn = None
            \<or> synergyStep t wr owned picked pool rem syn kp
              = updateFirst (\<lambda>e. poolAbilityId e = poolId)
                  (\<lambda>e. e\<lparr>sugWinrate := winrate (snd kp),
                          sugSynergy := synergyOf wr ownedId poolId (winrate (snd kp))\<rparr>) syn))"
  by (cases "ownedAndPool owned picked pool (parseKey (fst kp))")
     (auto simp: synergyStep_def Let_def split: option.splits)

lemma synergyStep_supported:
  assumes kp: "kp \<in> set pairs"
    and inv: "\<forall>e \<in> set syn. supportedBy pairs wr owned e"
  shows "\<forall>e \<in> set (synergyStep t wr owned picked pool rem syn kp). supportedBy pairs wr owned e"
proof -
  consider (same) "synergyStep t wr owned picked pool rem syn kp = syn"
    | (new) ownedId poolId where
        "ownedAndPool owned picked pool (parseKey (fst kp)) = (Some ownedId, Some poolId)"
        "10 \<le> numPicks (snd kp)"
        "synergyStep t wr owned picked pool rem syn kp
              = syn @ [\<lparr>poolAbilityId = poolId, sugWinrate = winrate (snd kp),
                        sugSynergy = synergyOf wr ownedId poolId (winrate (snd kp))\<rparr>]"
    | (upd) ownedId poolId where
        "ownedAndPool owned picked pool (parseKey (fst kp)) = (Some ownedId, Some poolId)"
        "10 \<le> numPicks (snd kp)"
        "synergyStep t wr owned picked pool rem syn kp
              = updateFirst (\<lambda>e. poolAbilityId e = poolId)
                  (\<lambda>e. e\<lparr>sugWinrate := winrate (snd kp),
                          sugSynergy := synergyOf wr ownedId poolId (winrate (snd kp))\<rparr>) syn"
    using synergyStep_cases [of t wr owned picked pool rem syn kp] by blast
  then show ?thesis
  proof cases
    case same
    with inv show ?thesis by simp
  next
    case new
    from ownedAndPool_Some [OF new(1)] kp new(2)
    have "supportedBy pairs wr owned \<lparr>poolAbilityId = poolId, sugWinrate = winrate (snd kp),
                        sugSynergy = synergyOf wr ownedId poolId (winrate (snd kp))\<rparr>"
      unfolding supportedBy_def by (intro bexI [of _ kp] bexI [of _ ownedId]) auto
    with inv new(3) show ?thesis by simp
  next
    case upd
    have "\<And>e. poolAbilityId e = poolId \<Longrightarrow>
        supportedBy pairs wr owned (e\<lparr>sugWinrate := winrate (snd kp),
                          sugSynergy := synergyOf wr ownedId poolId (winrate (snd kp))\<rparr>)"
      using ownedAndPool_Some [OF upd(1)] kp upd(2)
      unfolding supportedBy_def by (intro bexI [of _ kp] bexI [of _ ownedId]) auto
    with inv upd(3) set_updateFirst [of "\<lambda>e. poolAbilityId e = poolId" _ syn]
    show ?thesis by auto
  qed
qed

lemma foldl_synergyStep_supported:
  assumes "set kps \<subseteq> set pairs" and "\<forall>e \<in> set syn. supportedBy pairs wr owned e"
  shows "\<forall>e \<in> set (foldl (synergyStep t wr owned picked pool rem) syn kps).
           supportedBy pairs wr owned e"
  using assms
proof (induction kps arbitrary: syn)
  case Nil
  then show ?case by simp
next
  case (Cons kp kps)
  from Cons.prems have kp: "kp \<in> set pairs" and rest: "set kps \<subseteq> set pairs" by auto
  have "\<forall>e \<in> set (synergyStep t wr owned picked pool rem syn kp). supportedBy pairs wr owned e"
    using kp Cons.prems(2) by (rule synergyStep_supported)
  from Cons.IH [OF rest this] show ?case by simp
qed

lemma synergiesFor_supported:
  assumes "e \<in> set (synergiesFor t pairs wr pool picked pa)"
  shows "supportedBy pairs wr (set (map pickedId pa)) e"
proof -
  from assms have "e \<in> set (foldl (synergyStep t wr (set (map pickedId pa)) picked pool
      (remainingTypes t pa)) [] pairs)"
    by (auto simp: synergiesFor_def Let_def split: if_splits)
  moreover have "\<forall>e \<in> set (foldl (synergyStep t wr (set (map pickedId pa)) picked pool
      (remainingTypes t pa)) [] pairs). supportedBy pairs wr (set (map pickedId pa)) e"
    by (rule foldl_synergyStep_supported) simp_all
  ultimately show ?thesis by blast
qed


text \<open>
  C1, as amended. In the three ranked lists of the draft replay (best available pairs,
  best available pairs from different heroes, synergy suggestions of a player) no pair
  with fewer than ten picks appears, whatever its win rate or synergy: every entry of
  the two pair lists carries a numPicks of at least 10 and is the entry of a statistic
  with that numPicks and win rate, and every suggestion is supported by a statistic
  with numPicks of at least 10.
\<close>

theorem ranked_lists_respect_floor:
  "(\<forall>e \<in> set (bestAvailablePairs pairs wr pool picked).
      10 \<le> pairNumPicks e
      \<and> (\<exists>kp \<in> set pairs. parseKey (fst kp) = (Some (abilityA e), Some (abilityB e))
            \<and> numPicks (snd kp) = pairNumPicks e \<and> winrate (snd kp) = pairWinrate e))
   \<and> (\<forall>e \<in> set (bestAvailablePairsDiffHeroes t pairs wr pool picked).
      10 \<le> pairNumPicks e
      \<and> (\<exists>kp \<in> set pairs. parseKey (fst kp) = (Some (abilityA e), Some (abilityB e))
            \<and> numPicks (snd kp) = pairNumPicks e \<and> winrate (snd kp) = pairWinrate e))
   \<and> (\<forall>syn. getPlayerSynergies t pairs wr pool picked st sd i = Inr syn \<longrightarrow>
        (\<forall>e \<in> set syn. supportedBy pairs wr (set (pickedIdsFor st sd i)) e))"
proof (intro conjI ballI allI impI)
  fix e assume "e \<in> set (bestAvailablePairs pairs wr pool picked)"
  then show "10 \<le> pairNumPicks e" by (simp add: bestAvailablePairs_sound)
next
  fix e assume "e \<in> set (bestAvailablePairs pairs wr pool picked)"
  then show "\<exists>kp \<in> set pairs. parseKey (fst kp) = (Some (abilityA e), Some (abilityB e))
            \<and> numPicks (snd kp) = pairNumPicks e \<and> winrate (snd kp) = pairWinrate e"
    by (simp add: bestAvailablePairs_sound)
next
  fix e assume "e \<in> set (bestAvailablePairsDiffHeroes t pairs wr pool picked)"
  then show "10 \<le> pairNumPicks e" by (simp add: bestAvailablePairsDiffHeroes_sound)
next
  fix e assume "e \<in> set (bestAvailablePairsDiffHeroes t pairs wr pool picked)"
  then show "\<exists>kp \<in> set pairs. parseKey (fst kp) = (Some (abilityA e), Some (abilityB e))
            \<and> numPicks (snd kp) = pairNumPicks e \<and> winrate (snd kp) = pairWinrate e"
    by (simp add: bestAvailablePairsDiffHeroes_sound)
next
  fix syn e
  assume run: "getPlayerSynergies t pairs wr pool picked st sd i = Inr syn"
    and e: "e \<in> set syn"
  from run obtain pa where pa: "pickedFor st sd i = Some pa"
    and syn: "syn = synergiesFor t pairs wr pool picked pa"
    by (auto simp: getPlayerSynergies_def split: option.splits)
  from pa have "pickedIdsFor st sd i = map pickedId pa" by (simp add: pickedIdsFor_def)
  with e syn synergiesFor_supported [of e t pairs wr pool picked pa]
  show "supportedBy pairs wr (set (pickedIdsFor st sd i)) e" by simp
qed

theorem ranked_lists_respect_floor_witness:
  "bestAvailablePairs examplePairs [] (allPoolIds examplePicks []) (pickedIds examplePicks 2)
     = [\<lparr>abilityA = 12, abilityB = 13, pairWinrate = 70 / 100, synergy = 20 / 100,
          pairNumPicks = 40\<rparr>]
   \<and> getPlayerSynergies noAbilities examplePairs [] (allPoolIds examplePicks [])
       (pickedIds examplePicks 2) examplePickedAtTwo Radiant 0
     = Inr [\<lparr>poolAbilityId = 12, sugWinrate = 60 / 100, sugSynergy = 10 / 100\<rparr>]
   \<and> supportedBy examplePairs [] (set (pickedIdsFor examplePickedAtTwo Radiant 0))
       \<lparr>poolAbilityId = 12, sugWinrate = 60 / 100, sugSynergy = 10 / 100\<rparr>"
proof -
  have best: "bestAvailablePairs examplePairs [] (allPoolIds examplePicks [])
       (pickedIds examplePicks 2)
     = [\<lparr>abilityA = 12, abilityB = 13, pairWinrate = 70 / 100, synergy = 20 / 100,
          pairNumPicks = 40\<rparr>]"
    by code_simp
  have syn: "getPlayerSynergies noAbilities examplePairs [] (allPoolIds examplePicks [])
       (pickedIds examplePicks 2) examplePickedAtTwo Radiant 0
     = Inr [\<lparr>poolAbilityId = 12, sugWinrate = 60 / 100, sugSynergy = 10 / 100\<rparr>]"
    by code_simp
  from ranked_lists_respect_floor [of examplePairs "[]" "allPoolIds examplePicks []"
      "pickedIds examplePicks 2" noAbilities examplePickedAtTwo Radiant 0] syn
  have "supportedBy examplePairs [] (set (pickedIdsFor examplePickedAtTwo Radiant 0))
       \<lparr>poolAbilityId = 12, sugWinrate = 60 / 100, sugSynergy = 10 / 100\<rparr>"
    by simp
  with best syn show ?thesis by blast
qed

text \<open>
  C1, as stated, fails for the top-pairs list of the player card: a player with the
  abilities 1 and 2 whose pair statistic has 3 picks and a win rate of 0.9 gets that
  pair listed.
\<close>

theorem topPairs_lists_pair_below_floor:
  "topPairs (playerOf 1 [1, 2]) [(''1-2'', \<lparr>winrate = 90 / 100, numPicks = 3\<rparr>)] []
     = [\<lparr>abilityA = 1, abilityB = 2, pairWinrate = 90 / 100, synergy = 40 / 100\<rparr>]
   \<and> map_of [(''1-2'', \<lparr>winrate = 90 / 100, numPicks = 3\<rparr>)] (pairKey 1 2)
     = Some \<lparr>winrate = 90 / 100, numPicks = 3\<rparr>
   \<and> \<not> list_all
        (\<lambda>e. aboveFloor [(''1-2'', \<lparr>winrate = 90 / 100, numPicks = 3\<rparr>)]
               (abilityA e) (abilityB e))
        (topPairs (playerOf 1 [1, 2]) [(''1-2'', \<lparr>winrate = 90 / 100, numPicks = 3\<rparr>)] [])"
proof -
  have a: "topPairs (playerOf 1 [1, 2]) [(''1-2'', \<lparr>winrate = 90 / 100, numPicks = 3\<rparr>)] []
     = [\<lparr>abilityA = 1, abilityB = 2, pairWinrate = 90 / 100, synergy = 40 / 100\<rparr>]"
    by code_simp
  have b: "map_of [(''1-2'', \<lparr>winrate = 90 / 100, numPicks = 3\<rparr>)] (pairKey 1 2)
     = Some \<lparr>winrate = 90 / 100, numPicks = 3\<rparr>"
    by (simp add: key_eval)
  have c: "\<not> list_all
        (\<lambda>e. aboveFloor [(''1-2'', \<lparr>winrate = 90 / 100, numPicks = 3\<rparr>)]
               (abilityA e) (abilityB e))
        (topPairs (playerOf 1 [1, 2]) [(''1-2'', \<lparr>winrate = 90 / 100, numPicks = 3\<rparr>)] [])"
    unfolding a by (simp add: aboveFloor_def b)
  from a b c show ?thesis by blast
qed

subsection \<open>Keys of pairs with a hero innate\<close>

lemma splitOn_nonempty: "splitOn c s \<noteq> []"
  by (induction s) (auto split: list.splits)

lemma parseKey_leading_hyphen: "fst (parseKey (CHR ''-'' # s)) = None"
proof -
  obtain p ps where "splitOn CHR ''-'' s = p # ps"
    using splitOn_nonempty [of "CHR ''-''" s] by (cases "splitOn CHR ''-'' s") auto
  then show ?thesis by (simp add: parseKey_def parseInt_def)
qed

lemma pairKey_negative:
  assumes "a < 0 \<or> b < 0"
  shows "\<exists>s. pairKey a b = CHR ''-'' # s"
  using assms by (auto simp: pairKey_def showInt_def)

lemma parseKey_pairKey_negative:
  assumes "a < 0 \<or> b < 0"
  shows "fst (parseKey (pairKey a b)) = None"
  using pairKey_negative [OF assms] parseKey_leading_hyphen by auto

lemma synergyStep_negative_key:
  assumes "a < 0 \<or> b < 0"
  shows "synergyStep t wr owned picked pool rem syn (pairKey a b, stat) = syn"
proof -
  obtain y where "parseKey (pairKey a b) = (None, y)"
    using parseKey_pairKey_negative [OF assms] by (cases "parseKey (pairKey a b)") auto
  then show ?thesis
    by (simp add: synergyStep_def ownedAndPool_def hasNum_def Let_def)
qed

lemma availablePair_negative_key:
  assumes "a < 0 \<or> b < 0"
  shows "availablePair wr pool picked (pairKey a b, stat) = []"
proof -
  obtain y where "parseKey (pairKey a b) = (None, y)"
    using parseKey_pairKey_negative [OF assms] by (cases "parseKey (pairKey a b)") auto
  then show ?thesis
    by (simp add: availablePair_def hasNum_def Let_def)
qed

text \<open>
  C9 at a failing input. A player holds the hero innate -5 and the ability 7, and the
  ability 100 is still in the pool. The statistics pair 100 with -5 (win rate 0.9,
  50 picks, synergy +0.4) and with 7 (win rate 0.6, 50 picks, synergy +0.1). The key of
  the first pair, "-5-100", starts with a hyphen, so \<open>split('-')\<close> yields an empty
  first part and \<open>parseInt\<close> yields \<open>NaN\<close>: the pairing is skipped, and the
  suggestion for 100 carries the lower synergy +0.1.
\<close>

theorem getPlayerSynergies_skips_hero_innate_pairing:
  "pairKey (- 5) 100 = ''-5-100''
   \<and> parseKey ''-5-100'' = (None, Some 5)
   \<and> getPlayerSynergies noAbilities
        [(''-5-100'', \<lparr>winrate = 90 / 100, numPicks = 50\<rparr>),
         (''7-100'', \<lparr>winrate = 60 / 100, numPicks = 50\<rparr>)]
        [] {- 5, 7, 100} {- 5, 7}
        \<lparr>radiantPicked = [[\<lparr>pickedId = - 5, pickedOrder = 1\<rparr>,
                            \<lparr>pickedId = 7, pickedOrder = 2\<rparr>], [], [], [], []],
         direPicked = [[], [], [], [], []]\<rparr>
        Radiant 0
     = Inr [\<lparr>poolAbilityId = 100, sugWinrate = 60 / 100, sugSynergy = 10 / 100\<rparr>]
   \<and> synergyOf [] (- 5) 100 (90 / 100) = 40 / 100"
proof -
  have a: "pairKey (- 5) 100 = ''-5-100''" by (simp add: key_eval)
  have b: "parseKey ''-5-100'' = (None, Some 5)" by (simp add: parse_eval)
  have c: "getPlayerSynergies noAbilities
        [(''-5-100'', \<lparr>winrate = 90 / 100, numPicks = 50\<rparr>),
         (''7-100'', \<lparr>winrate = 60 / 100, numPicks = 50\<rparr>)]
        [] {- 5, 7, 100} {- 5, 7}
        \<lparr>radiantPicked = [[\<lparr>pickedId = - 5, pickedOrder = 1\<rparr>,
                            \<lparr>pickedId = 7, pickedOrder = 2\<rparr>], [], [], [], []],
         direPicked = [[], [], [], [], []]\<rparr>
        Radiant 0
     = Inr [\<lparr>poolAbilityId = 100, sugWinrate = 60 / 100, sugSynergy = 10 / 100\<rparr>]"
    by code_simp
  have d: "synergyOf [] (- 5) 100 (90 / 100) = 40 / 100"
    by (simp add: synergyOf_def winrateOrHalf_def)
  from a b c d show ?thesis by blast
qed

end
